theory Spec2Isabelle
  imports Main "HOL-Library.AList"
begin

section \<open>Text\<close>

text \<open>
  The definitions keep the names of \<^verbatim>\<open>main.py\<close>; a leading underscore is dropped
  (\<open>check_api_key\<close> is \<^verbatim>\<open>_check_api_key\<close>), and \<^verbatim>\<open>str.find\<close> is \<open>find_py\<close>.

  Python text is modelled as \<^typ>\<open>string\<close>; a character is a code point below 256.
  That is exactly the range of an HTTP header value as the framework decodes it, and
  it contains every character the program compares with.  The operations below are
  Python's \<^verbatim>\<open>str.strip()\<close>, \<^verbatim>\<open>str.lower()\<close>, \<^verbatim>\<open>str.endswith\<close>, \<^verbatim>\<open>str.find\<close>,
  \<^verbatim>\<open>str.rfind\<close>, slicing, \<^verbatim>\<open>in\<close> and \<^verbatim>\<open>str(int)\<close> on that range.
\<close>

definition isspace :: "char \<Rightarrow> bool" where
  "isspace c = ((of_char c :: nat) \<in> {9, 10, 11, 12, 13, 28, 29, 30, 31, 32, 133, 160})"

definition strip :: "string \<Rightarrow> string" where
  "strip s = rev (dropWhile isspace (rev (dropWhile isspace s)))"

definition lower_char :: "char \<Rightarrow> char" where
  "lower_char c =
     (let n = (of_char c :: nat)
      in if (65 \<le> n \<and> n \<le> 90) \<or> (192 \<le> n \<and> n \<le> 222 \<and> n \<noteq> 215)
         then char_of (n + 32) else c)"

definition lower :: "string \<Rightarrow> string" where
  "lower s = map lower_char s"

definition endswith :: "string \<Rightarrow> string \<Rightarrow> bool" where
  "endswith s suf = (length suf \<le> length s \<and> drop (length s - length suf) s = suf)"

fun find_from :: "int \<Rightarrow> char \<Rightarrow> string \<Rightarrow> int" where
  "find_from i c [] = - 1"
| "find_from i c (x # xs) = (if x = c then i else find_from (i + 1) c xs)"

definition find_py :: "string \<Rightarrow> char \<Rightarrow> int" where
  \<comment> \<open>\<^verbatim>\<open>s.find(c)\<close>: the lowest index of \<open>c\<close>, or \<open>-1\<close>.\<close>
  "find_py s c = find_from 0 c s"

definition rfind :: "string \<Rightarrow> char \<Rightarrow> int" where
  \<comment> \<open>\<^verbatim>\<open>s.rfind(c)\<close>: the highest index of \<open>c\<close>, or \<open>-1\<close>.\<close>
  "rfind s c =
     (let k = find_from 0 c (rev s) in if k = - 1 then - 1 else int (length s) - 1 - k)"

definition slice :: "string \<Rightarrow> int \<Rightarrow> int \<Rightarrow> string" where
  \<comment> \<open>\<^verbatim>\<open>s[a:b]\<close> for bounds that are not negative.\<close>
  "slice s a b = take (nat b - nat a) (drop (nat a) s)"

fun contains :: "string \<Rightarrow> string \<Rightarrow> bool" where
  \<comment> \<open>\<^verbatim>\<open>sub in s\<close>\<close>
  "contains [] sub = (sub = [])"
| "contains (c # cs) sub = (take (length sub) (c # cs) = sub \<or> contains cs sub)"

definition digit_char :: "nat \<Rightarrow> char" where
  "digit_char d = char_of (48 + d)"

fun str_nat :: "nat \<Rightarrow> string" where
  "str_nat n = (if n < 10 then [digit_char n] else str_nat (n div 10) @ [digit_char (n mod 10)])"

declare str_nat.simps [simp del]

definition str_int :: "int \<Rightarrow> string" where
  "str_int i = (if i < 0 then CHR ''-'' # str_nat (nat (- i)) else str_nat (nat i))"

section \<open>Exceptions\<close>

text \<open>
  Every exception the request handler can let escape.  \<open>HTTPException\<close> is the
  framework's exception with its \<^verbatim>\<open>status_code\<close> and its \<^verbatim>\<open>detail\<close>; the others are
  uncaught Python exceptions, which the framework turns into an internal server
  error.
\<close>

datatype exn =
    HTTPException int string
  | AttributeError string
  | ValidationError string
  | JSONDecodeError
  | TransportError string

section \<open>Configuration and requests\<close>

record config =
  API_KEY :: string
  GEMINI_API_KEY :: string
  GEMINI_MODEL :: string

record AnalyzeRequest =
  downloadUrl :: string
  userQuery :: string
  itemId :: "string option"
  languageCode :: "string option"
  contextHint :: "string option"

record AnalyzeResponse =
  answer :: string
  imageSummary :: string
  extractedText :: string
  detectedLanguages :: "string list"
  safetyNotes :: string

section \<open>Authenticator\<close>

text \<open>
  The only part of the request that \<^verbatim>\<open>_check_api_key\<close> reads is the authorization
  header, \<open>None\<close> when the request has none.
\<close>

definition header_text :: "string option \<Rightarrow> string" where
  \<comment> \<open>\<^verbatim>\<open>req.headers.get("authorization") or ""\<close>\<close>
  "header_text authorization = (case authorization of None \<Rightarrow> [] | Some h \<Rightarrow> h)"

definition check_api_key :: "string \<Rightarrow> string option \<Rightarrow> exn + unit" where
  "check_api_key api_key authorization =
     (let auth = header_text authorization;
          expected = ''Bearer '' @ api_key
      in if api_key = [] then Inl (HTTPException 500 ''Server API_KEY not configured'')
         else if strip auth \<noteq> expected then Inl (HTTPException 403 ''Forbidden'')
         else Inr ())"

section \<open>MIME guessing\<close>

definition guess_mime :: "string \<Rightarrow> string" where
  "guess_mime url =
     (let u = lower url
      in if endswith u ''.png'' then ''image/png''
         else if endswith u ''.jpg'' \<or> endswith u ''.jpeg'' then ''image/jpeg''
         else if endswith u ''.webp'' then ''image/webp''
         else ''image/png'')"

section \<open>Python values\<close>

text \<open>
  The values \<^verbatim>\<open>json.loads\<close> can return.  A dictionary is an association list in
  insertion order (its keys are distinct).  A float is identified by the text of
  its \<^verbatim>\<open>repr\<close>, which Python guarantees to determine the float: \<open>0.2\<close> is
  \<open>JFloat ''0.2''\<close>, the infinities are \<open>''inf''\<close> and \<open>''-inf''\<close>, not-a-number is
  \<open>''nan''\<close>.
\<close>

datatype json =
    JNull
  | JBool bool
  | JInt int
  | JFloat string
  | JStr string
  | JArr "json list"
  | JObj "(string \<times> json) list"

fun truthy :: "json \<Rightarrow> bool" where
  "truthy JNull = False"
| "truthy (JBool b) = b"
| "truthy (JInt i) = (i \<noteq> 0)"
| "truthy (JFloat r) = (r \<noteq> ''0.0'' \<and> r \<noteq> ''-0.0'')"
| "truthy (JStr s) = (s \<noteq> [])"
| "truthy (JArr xs) = (xs \<noteq> [])"
| "truthy (JObj kvs) = (kvs \<noteq> [])"

definition dict_get :: "(string \<times> json) list \<Rightarrow> string \<Rightarrow> json \<Rightarrow> json" where
  \<comment> \<open>\<^verbatim>\<open>d.get(key, default)\<close>\<close>
  "dict_get d key dflt = (case map_of d key of None \<Rightarrow> dflt | Some v \<Rightarrow> v)"

definition hex_digit :: "nat \<Rightarrow> char" where
  "hex_digit d = (if d < 10 then char_of (48 + d) else char_of (87 + d))"

definition printable :: "char \<Rightarrow> bool" where
  "printable c =
     (let n = (of_char c :: nat)
      in (32 \<le> n \<and> n \<le> 126) \<or> (161 \<le> n \<and> n \<le> 255 \<and> n \<noteq> 173))"

definition repr_char :: "char \<Rightarrow> char \<Rightarrow> string" where
  "repr_char quote c =
     (if c = CHR 0x5C then [CHR 0x5C, CHR 0x5C]
      else if c = quote then [CHR 0x5C, quote]
      else if c = CHR 0x09 then [CHR 0x5C, CHR ''t'']
      else if c = CHR 0x0A then [CHR 0x5C, CHR ''n'']
      else if c = CHR 0x0D then [CHR 0x5C, CHR ''r'']
      else if \<not> printable c
        then [CHR 0x5C, CHR ''x'', hex_digit (of_char c div 16), hex_digit (of_char c mod 16)]
      else [c])"

definition repr_str :: "string \<Rightarrow> string" where
  \<comment> \<open>\<^verbatim>\<open>repr\<close> of a \<^verbatim>\<open>str\<close>: double quotes only when the text has a single quote and no
      double quote.\<close>
  "repr_str s =
     (let quote = (if CHR 0x27 \<in> set s \<and> CHR 0x22 \<notin> set s then CHR 0x22 else CHR 0x27)
      in quote # concat (map (repr_char quote) s) @ [quote])"

fun join :: "string \<Rightarrow> string list \<Rightarrow> string" where
  "join sep [] = []"
| "join sep [x] = x"
| "join sep (x # y # ys) = x @ sep @ join sep (y # ys)"

fun py_repr :: "json \<Rightarrow> string" where
  "py_repr JNull = ''None''"
| "py_repr (JBool b) = (if b then ''True'' else ''False'')"
| "py_repr (JInt i) = str_int i"
| "py_repr (JFloat r) = r"
| "py_repr (JStr s) = repr_str s"
| "py_repr (JArr xs) = ''['' @ join '', '' (map py_repr xs) @ '']''"
| "py_repr (JObj kvs) =
     ''{'' @ join '', '' (map (\<lambda>kv. repr_str (fst kv) @ '': '' @ py_repr (snd kv)) kvs) @ ''}''"

definition py_str :: "json \<Rightarrow> string" where
  \<comment> \<open>\<^verbatim>\<open>str(v)\<close>: a \<^verbatim>\<open>str\<close> is returned as it is, any other value gives its \<^verbatim>\<open>repr\<close>.\<close>
  "py_str v = (case v of JStr s \<Rightarrow> s | _ \<Rightarrow> py_repr v)"

definition health :: json where
  \<comment> \<open>the body of \<^verbatim>\<open>GET /health\<close>\<close>
  "health = JObj [(''ok'', JBool True)]"

section \<open>The library\<close>

text \<open>
  Two library behaviours the program relies on are parameters of the model:
  \<^item> \<open>loads\<close> is \<^verbatim>\<open>json.loads\<close> on a \<^verbatim>\<open>str\<close>; \<open>None\<close> stands for any exception it raises.
  \<^item> \<open>lax_str\<close> is what the response model's validation does with a list element that
    is not a \<^verbatim>\<open>str\<close> where a \<^verbatim>\<open>str\<close> is declared: \<open>None\<close> when it rejects the element,
    \<open>Some s\<close> when it converts it (this differs between versions of the validation
    library; a \<^verbatim>\<open>str\<close> element is accepted unchanged by all of them).
\<close>

record pylib =
  loads :: "string \<Rightarrow> json option"
  lax_str :: "json \<Rightarrow> string option"

section \<open>A reference decoder\<close>

text \<open>
  \<^verbatim>\<open>json.loads\<close> is standard-library code; the theorems about the program hold for
  every \<open>loads\<close>.  The concrete texts of this development are run against the
  decoder below, which follows the library's decoder (\<^verbatim>\<open>scan_once\<close>, \<^verbatim>\<open>JSONObject\<close>,
  \<^verbatim>\<open>JSONArray\<close>, \<^verbatim>\<open>scanstring\<close> in strict mode, the number pattern) on text of the
  8-bit model: whitespace is space, tab, line feed and carriage return; a repeated
  key keeps its first position and its last value; \<^verbatim>\<open>NaN\<close>, \<^verbatim>\<open>Infinity\<close> and
  \<^verbatim>\<open>-Infinity\<close> are accepted.  Two things lie outside the model and are marked as
  such: a \<^verbatim>\<open>\u\<close> escape above \<^verbatim>\<open>00ff\<close> denotes a character the 8-bit text has not, and
  the decoder refuses it; the conversion of a number literal with a fraction or an
  exponent to a float is the hook \<open>parse_float\<close> (the library has a hook of that
  name), which returns the \<^verbatim>\<open>repr\<close> of the float.  Integers are unbounded.
\<close>

definition ws_char :: "char \<Rightarrow> bool" where
  "ws_char c = (c = CHR '' '' \<or> c = CHR 0x09 \<or> c = CHR 0x0A \<or> c = CHR 0x0D)"

definition skip_ws :: "string \<Rightarrow> string" where
  "skip_ws s = dropWhile ws_char s"

definition is_digit :: "char \<Rightarrow> bool" where
  "is_digit c = (48 \<le> (of_char c :: nat) \<and> (of_char c :: nat) \<le> 57)"

definition hex_val :: "char \<Rightarrow> nat option" where
  "hex_val c =
     (let n = (of_char c :: nat)
      in if 48 \<le> n \<and> n \<le> 57 then Some (n - 48)
         else if 97 \<le> n \<and> n \<le> 102 then Some (n - 87)
         else if 65 \<le> n \<and> n \<le> 70 then Some (n - 55)
         else None)"

fun hex4 :: "string \<Rightarrow> nat option" where
  "hex4 [a, b, c, d] =
     (case (hex_val a, hex_val b, hex_val c, hex_val d) of
        (Some x, Some y, Some z, Some w) \<Rightarrow> Some (((x * 16 + y) * 16 + z) * 16 + w)
      | _ \<Rightarrow> None)"
| "hex4 _ = None"

definition unescape :: "char \<Rightarrow> char option" where
  "unescape e =
     (if e = CHR 0x22 then Some (CHR 0x22)
      else if e = CHR 0x5C then Some (CHR 0x5C)
      else if e = CHR ''/'' then Some (CHR ''/'')
      else if e = CHR ''b'' then Some (CHR 0x08)
      else if e = CHR ''f'' then Some (CHR 0x0C)
      else if e = CHR ''n'' then Some (CHR 0x0A)
      else if e = CHR ''r'' then Some (CHR 0x0D)
      else if e = CHR ''t'' then Some (CHR 0x09)
      else None)"

fun scanstring :: "string \<Rightarrow> (string \<times> string) option" where
  "scanstring [] = None"
| "scanstring (c # cs) =
     (if c = CHR 0x22 then Some ([], cs)
      else if c = CHR 0x5C then
        (case cs of
           [] \<Rightarrow> None
         | e # r \<Rightarrow>
             if e = CHR ''u'' then
               (case hex4 (take 4 r) of
                  None \<Rightarrow> None
                | Some n \<Rightarrow>
                    if n < 256
                    then (case scanstring (drop 4 r) of
                            None \<Rightarrow> None
                          | Some (t, rest) \<Rightarrow> Some (char_of n # t, rest))
                    else None)
             else
               (case unescape e of
                  None \<Rightarrow> None
                | Some x \<Rightarrow>
                    (case scanstring r of
                       None \<Rightarrow> None
                     | Some (t, rest) \<Rightarrow> Some (x # t, rest))))
      else if (of_char c :: nat) < 32 then None
      else (case scanstring cs of
              None \<Rightarrow> None
            | Some (t, rest) \<Rightarrow> Some (c # t, rest)))"

lemma scanstring_shorter: "scanstring s = Some (t, r) \<Longrightarrow> length r < length s"
proof (induction s arbitrary: t r rule: scanstring.induct)
  case 1
  then show ?case by simp
next
  case (2 c cs)
  then show ?case
    by (auto split: if_splits list.splits option.splits prod.splits) fastforce+
qed


definition digits_val :: "string \<Rightarrow> nat" where
  "digits_val ds = foldl (\<lambda>a c. 10 * a + (of_char c - 48)) 0 ds"

definition parse_int :: "string \<Rightarrow> int" where
  \<comment> \<open>\<^verbatim>\<open>int(lexeme)\<close> on an optional minus sign followed by decimal digits\<close>
  "parse_int s =
     (case s of
        [] \<Rightarrow> 0
      | c # cs \<Rightarrow> if c = CHR ''-'' then - int (digits_val cs) else int (digits_val (c # cs)))"

definition match_integer :: "string \<Rightarrow> (string \<times> string) option" where
  "match_integer s =
     (let sign = takeWhile (\<lambda>c. c = CHR ''-'') (take 1 s);
          s1 = drop (length sign) s
      in case s1 of
           [] \<Rightarrow> None
         | d # ds \<Rightarrow>
             if d = CHR ''0'' then Some (sign @ [d], ds)
             else if is_digit d then Some (sign @ d # takeWhile is_digit ds, dropWhile is_digit ds)
             else None)"

definition match_frac :: "string \<Rightarrow> string \<times> string" where
  "match_frac s =
     (case s of
        p # d # ds \<Rightarrow>
          if p = CHR ''.'' \<and> is_digit d
          then (p # takeWhile is_digit (d # ds), dropWhile is_digit (d # ds))
          else ([], s)
      | _ \<Rightarrow> ([], s))"

definition match_exp :: "string \<Rightarrow> string \<times> string" where
  "match_exp s =
     (case s of
        [] \<Rightarrow> ([], s)
      | e # r \<Rightarrow>
          if e = CHR ''e'' \<or> e = CHR ''E'' then
            (let sign = takeWhile (\<lambda>c. c = CHR ''+'' \<or> c = CHR ''-'') (take 1 r);
                 r1 = drop (length sign) r
             in if r1 \<noteq> [] \<and> is_digit (hd r1)
                then (e # sign @ takeWhile is_digit r1, dropWhile is_digit r1)
                else ([], s))
          else ([], s))"

definition match_number :: "string \<Rightarrow> (string \<times> string \<times> string \<times> string) option" where
  "match_number s =
     (case match_integer s of
        None \<Rightarrow> None
      | Some (integer, r) \<Rightarrow>
          (let (frac, r1) = match_frac r; (exp, r2) = match_exp r1
           in Some (integer, frac, exp, r2)))"

definition scan_atom :: "(string \<Rightarrow> string) \<Rightarrow> string \<Rightarrow> (json \<times> string) option" where
  "scan_atom parse_float s =
     (if take 4 s = ''null'' then Some (JNull, drop 4 s)
      else if take 4 s = ''true'' then Some (JBool True, drop 4 s)
      else if take 5 s = ''false'' then Some (JBool False, drop 5 s)
      else case match_number s of
             Some (integer, frac, exp, r) \<Rightarrow>
               if frac \<noteq> [] \<or> exp \<noteq> []
               then Some (JFloat (parse_float (integer @ frac @ exp)), r)
               else Some (JInt (parse_int integer), r)
           | None \<Rightarrow>
               if take 3 s = ''NaN'' then Some (JFloat ''nan'', drop 3 s)
               else if take 8 s = ''Infinity'' then Some (JFloat ''inf'', drop 8 s)
               else if take 9 s = ''-Infinity'' then Some (JFloat ''-inf'', drop 9 s)
               else None)"

lemma skip_ws_length: "length (skip_ws s) \<le> length s"
  by (simp add: skip_ws_def length_dropWhile_le)

lemma skip_ws_Cons_length: "skip_ws s = d # ds \<Longrightarrow> length ds < length s"
  using skip_ws_length [of s] by simp

function scan_once :: "(string \<Rightarrow> string) \<Rightarrow> string \<Rightarrow> (json \<times> string) option"
  and scan_array :: "(string \<Rightarrow> string) \<Rightarrow> string \<Rightarrow> json list \<Rightarrow> (json \<times> string) option"
  and scan_object ::
    "(string \<Rightarrow> string) \<Rightarrow> string \<Rightarrow> (string \<times> json) list \<Rightarrow> (json \<times> string) option"
where
  "scan_once pf s =
     (case s of
        [] \<Rightarrow> None
      | c # cs \<Rightarrow>
          if c = CHR 0x22 then
            (case scanstring cs of None \<Rightarrow> None | Some (t, r) \<Rightarrow> Some (JStr t, r))
          else if c = CHR ''{'' then
            (case skip_ws cs of
               [] \<Rightarrow> None
             | d # ds \<Rightarrow>
                 if d = CHR ''}'' then Some (JObj [], ds)
                 else if d = CHR 0x22 then scan_object pf ds []
                 else None)
          else if c = CHR ''['' then
            (case skip_ws cs of
               [] \<Rightarrow> None
             | d # ds \<Rightarrow>
                 if d = CHR '']'' then Some (JArr [], ds)
                 else scan_array pf (d # ds) [])
          else scan_atom pf s)"
| "scan_array pf s vals =
     (case scan_once pf s of
        None \<Rightarrow> None
      | Some (v, r) \<Rightarrow>
          (case skip_ws r of
             [] \<Rightarrow> None
           | d # ds \<Rightarrow>
               if d = CHR '']'' then Some (JArr (vals @ [v]), ds)
               else if d = CHR '','' \<and> length ds < length s
               then scan_array pf (skip_ws ds) (vals @ [v])
               else None))"
| "scan_object pf s pairs =
     (case scanstring s of
        None \<Rightarrow> None
      | Some (key, r0) \<Rightarrow>
          (case skip_ws r0 of
             [] \<Rightarrow> None
           | colon # r1 \<Rightarrow>
               if colon \<noteq> CHR '':'' then None
               else
                 (case scan_once pf (skip_ws r1) of
                    None \<Rightarrow> None
                  | Some (v, r2) \<Rightarrow>
                      (case skip_ws r2 of
                         [] \<Rightarrow> None
                       | d # r3 \<Rightarrow>
                           if d = CHR ''}'' then Some (JObj (AList.update key v pairs), r3)
                           else if d = CHR '','' then
                             (case skip_ws r3 of
                                [] \<Rightarrow> None
                              | q # r4 \<Rightarrow>
                                  if q = CHR 0x22 \<and> length r4 < length s
                                  then scan_object pf r4 (AList.update key v pairs)
                                  else None)
                           else None))))"
  by pat_completeness auto

termination
proof (relation "measure (\<lambda>x. case x of
          Inl (pf, s) \<Rightarrow> 2 * length s
        | Inr (Inl (pf, s, vals)) \<Rightarrow> 2 * length s + 1
        | Inr (Inr (pf, s, pairs)) \<Rightarrow> 2 * length s + 1)", goal_cases)
  case 1
  then show ?case by simp
next
  case (2 pf s c cs d ds)
  then show ?case using skip_ws_Cons_length [of cs d ds] by simp
next
  case (3 pf s c cs d ds)
  then show ?case using skip_ws_length [of cs] by simp
next
  case (4 pf s vals)
  then show ?case by simp
next
  case (5 pf s vals x v r d ds)
  then show ?case using skip_ws_length [of ds] by simp
next
  case (6 pf s pairs x key r0 colon r1)
  then show ?case
    using scanstring_shorter [of s key r0] skip_ws_Cons_length [of r0 colon r1]
      skip_ws_length [of r1] by simp
next
  case (7 pf s pairs x key r0 colon r1 y v r2 d r3 q r4)
  then show ?case by simp
qed

definition json_loads :: "(string \<Rightarrow> string) \<Rightarrow> string \<Rightarrow> json option" where
  "json_loads pf s =
     (case scan_once pf (skip_ws s) of
        None \<Rightarrow> None
      | Some (v, r) \<Rightarrow> if skip_ws r = [] then Some v else None)"


declare scan_once.simps [simp del] scan_array.simps [simp del] scan_object.simps [simp del]

lemma match_integer_shorter: "match_integer s = Some (i, r) \<Longrightarrow> length r < length s"
  by (cases s) (auto simp: match_integer_def Let_def less_Suc_eq_le 
      intro: le_trans [OF length_dropWhile_le] split: list.splits if_splits)

lemma match_frac_length: "match_frac s = (f, r) \<Longrightarrow> length r \<le> length s"
  by (auto simp: match_frac_def  le_SucI length_dropWhile_le intro: le_trans [OF length_dropWhile_le]
      split: list.splits if_splits)

lemma match_exp_length: "match_exp s = (e, r) \<Longrightarrow> length r \<le> length s"
  by (auto simp: match_exp_def Let_def  intro!: le_trans [OF length_dropWhile_le]
      split: list.splits if_splits)

lemma match_number_shorter: "match_number s = Some (i, f, e, r) \<Longrightarrow> length r < length s"
  by (auto simp: match_number_def Let_def split: option.splits prod.splits
      dest!: match_integer_shorter match_frac_length match_exp_length)

lemma take_eq_shorter: "take n s = t \<Longrightarrow> length t = n \<Longrightarrow> 0 < n \<Longrightarrow> length (drop n s) < length s"
  by (cases "n \<le> length s") auto

lemma scan_atom_shorter: "scan_atom pf s = Some (v, r) \<Longrightarrow> length r < length s"
  unfolding scan_atom_def
  by (auto split: if_splits option.splits prod.splits
      dest: match_number_shorter take_eq_shorter)

lemma scan_shorter:
  "(scan_once pf s = Some (v, r) \<longrightarrow> length r < length s)"
  "(scan_array pf s vals = Some (v, r) \<longrightarrow> length r < length s)"
  "(scan_object pf s pairs = Some (v, r) \<longrightarrow> length r < length s)"
proof (induction pf s and pf s vals and pf s pairs arbitrary: v r and v r and v r
    rule: scan_once_scan_array_scan_object.induct)
  case (1 pf s)
  show ?case
  proof
    assume a: "scan_once pf s = Some (v, r)"
    show "length r < length s"
    proof (cases s)
      case Nil
      with a show ?thesis by (simp add: scan_once.simps)
    next
      case (Cons c cs)
      consider (str) "c = CHR 0x22" | (obj) "c \<noteq> CHR 0x22" "c = CHR ''{''"
        | (arr) "c \<noteq> CHR 0x22" "c \<noteq> CHR ''{''" "c = CHR ''[''"
        | (atom) "c \<noteq> CHR 0x22" "c \<noteq> CHR ''{''" "c \<noteq> CHR ''[''"
        by blast
      then show ?thesis
      proof cases
        case str
        with a Cons show ?thesis
          by (auto simp: scan_once.simps split: option.splits dest: scanstring_shorter)
      next
        case obj
        show ?thesis
        proof (cases "skip_ws cs")
          case Nil
          with a Cons obj show ?thesis by (simp add: scan_once.simps)
        next
          case (Cons d ds)
          note sk = this
          from skip_ws_Cons_length [OF sk] have l: "length ds < length cs" .
          show ?thesis
          proof (cases "d = CHR ''}''")
            case True
            with a \<open>s = c # cs\<close> obj sk l show ?thesis by (simp add: scan_once.simps)
          next
            case False
            note nd = this
            show ?thesis
            proof (cases "d = CHR 0x22")
              case True
              with a \<open>s = c # cs\<close> obj sk nd have "scan_object pf ds [] = Some (v, r)"
                by (simp add: scan_once.simps)
              with "1.IH"(1) [OF \<open>s = c # cs\<close> _ obj(2) sk nd True] obj(1)
              have "length r < length ds" by blast
              with l \<open>s = c # cs\<close> show ?thesis by simp
            next
              case False
              with a \<open>s = c # cs\<close> obj sk nd show ?thesis by (simp add: scan_once.simps)
            qed
          qed
        qed
      next
        case arr
        show ?thesis
        proof (cases "skip_ws cs")
          case Nil
          with a Cons arr show ?thesis by (simp add: scan_once.simps)
        next
          case (Cons d ds)
          note sk = this
          from skip_ws_Cons_length [OF sk] have l: "length ds < length cs" .
          show ?thesis
          proof (cases "d = CHR '']''")
            case True
            with a \<open>s = c # cs\<close> arr sk l show ?thesis by (simp add: scan_once.simps)
          next
            case False
            with a \<open>s = c # cs\<close> arr sk have "scan_array pf (d # ds) [] = Some (v, r)"
              by (simp add: scan_once.simps)
            with "1.IH"(2) [OF \<open>s = c # cs\<close> _ arr(2) arr(3) sk False] arr(1)
            have "length r < length (d # ds)" by blast
            with l \<open>s = c # cs\<close> show ?thesis by simp
          qed
        qed
      next
        case atom
        with a Cons have "scan_atom pf s = Some (v, r)" by (simp add: scan_once.simps)
        then show ?thesis by (rule scan_atom_shorter)
      qed
    qed
  qed
next
  case (2 pf s vals)
  show ?case
  proof
    assume a: "scan_array pf s vals = Some (v, r)"
    then obtain v1 r1 where so: "scan_once pf s = Some (v1, r1)"
      by (auto simp: scan_array.simps [of pf s] split: option.splits)
    with "2.IH"(1) have l1: "length r1 < length s" by blast
    from a so obtain d ds where sk: "skip_ws r1 = d # ds"
      by (auto simp: scan_array.simps [of pf s] split: list.splits)
    from skip_ws_Cons_length [OF sk] l1 have l2: "length ds < length s" by simp
    show "length r < length s"
    proof (cases "d = CHR '']''")
      case True
      with a so sk l2 show ?thesis by (simp add: scan_array.simps [of pf s])
    next
      case False
      with a so sk l2 have c: "d = CHR '',''" and
        rec: "scan_array pf (skip_ws ds) (vals @ [v1]) = Some (v, r)"
        by (auto simp: scan_array.simps [of pf s] split: if_splits)
      from "2.IH"(2) [OF so refl sk False] c l2 rec
      have "length r < length (skip_ws ds)" by blast
      with skip_ws_length [of ds] l2 show ?thesis by simp
    qed
  qed
next
  case (3 pf s pairs)
  show ?case
  proof
    assume a: "scan_object pf s pairs = Some (v, r)"
    then obtain key r0 where ss: "scanstring s = Some (key, r0)"
      by (auto simp: scan_object.simps [of pf s] split: option.splits)
    from a ss obtain colon r1 where sk0: "skip_ws r0 = colon # r1"
      by (auto simp: scan_object.simps [of pf s] split: list.splits)
    from a ss sk0 have col: "\<not> colon \<noteq> CHR '':''"
      by (auto simp: scan_object.simps [of pf s] split: if_splits)
    from a ss sk0 col obtain v1 r2 where so: "scan_once pf (skip_ws r1) = Some (v1, r2)"
      by (auto simp: scan_object.simps [of pf s] split: option.splits)
    from a ss sk0 col so obtain d r3 where sk2: "skip_ws r2 = d # r3"
      by (auto simp: scan_object.simps [of pf s] split: list.splits)
    from "3.IH"(1) [OF ss refl sk0 col] so have "length r2 < length (skip_ws r1)" by blast
    with skip_ws_length [of r1] skip_ws_Cons_length [OF sk0] scanstring_shorter [OF ss]
    have l2: "length r2 < length s" by simp
    with skip_ws_Cons_length [OF sk2] have l3: "length r3 < length s" by simp
    show "length r < length s"
    proof (cases "d = CHR ''}''")
      case True
      with a ss sk0 col so sk2 l3 show ?thesis by (simp add: scan_object.simps [of pf s])
    next
      case False
      note nd = this
      with a ss sk0 col so sk2 have c: "d = CHR '',''"
        by (auto simp: scan_object.simps [of pf s] split: if_splits)
      from a ss sk0 col so sk2 nd c obtain q r4 where sk3: "skip_ws r3 = q # r4"
        by (auto simp: scan_object.simps [of pf s] split: list.splits)
      from skip_ws_Cons_length [OF sk3] l3 have l4: "length r4 < length s" by simp
      from a ss sk0 col so sk2 nd c sk3 l4 have q: "q = CHR 0x22"
        and rec: "scan_object pf r4 (AList.update key v1 pairs) = Some (v, r)"
        by (auto simp: scan_object.simps [of pf s] split: if_splits)
      from "3.IH"(2) [OF ss refl sk0 col so refl sk2 nd c sk3] q l4 rec
      have "length r < length r4" by blast
      with l4 show ?thesis by simp
    qed
  qed
qed

text \<open>
  The two length tests in \<open>scan_array\<close> and \<open>scan_object\<close> only serve the termination
  proof: a scan always consumes input, so they never decide the result.
\<close>

lemma scan_array_unguarded:
  "scan_array pf s vals =
     (case scan_once pf s of
        None \<Rightarrow> None
      | Some (v, r) \<Rightarrow>
          (case skip_ws r of
             [] \<Rightarrow> None
           | d # ds \<Rightarrow>
               if d = CHR '']'' then Some (JArr (vals @ [v]), ds)
               else if d = CHR '','' then scan_array pf (skip_ws ds) (vals @ [v])
               else None))"
proof (cases "scan_once pf s")
  case None
  then show ?thesis by (simp add: scan_array.simps [of pf s])
next
  case (Some p)
  obtain v r where p: "p = (v, r)" by (cases p)
  from Some p scan_shorter(1) [of pf s v r] have l: "length r < length s" by simp
  show ?thesis
  proof (cases "skip_ws r")
    case Nil
    with Some p show ?thesis by (simp add: scan_array.simps [of pf s])
  next
    case (Cons d ds)
    from skip_ws_Cons_length [OF Cons] l have "length ds < length s" by simp
    with Some p Cons show ?thesis by (simp add: scan_array.simps [of pf s])
  qed
qed

lemma scan_object_unguarded:
  "scan_object pf s pairs =
     (case scanstring s of
        None \<Rightarrow> None
      | Some (key, r0) \<Rightarrow>
          (case skip_ws r0 of
             [] \<Rightarrow> None
           | colon # r1 \<Rightarrow>
               if colon \<noteq> CHR '':'' then None
               else
                 (case scan_once pf (skip_ws r1) of
                    None \<Rightarrow> None
                  | Some (v, r2) \<Rightarrow>
                      (case skip_ws r2 of
                         [] \<Rightarrow> None
                       | d # r3 \<Rightarrow>
                           if d = CHR ''}'' then Some (JObj (AList.update key v pairs), r3)
                           else if d = CHR '','' then
                             (case skip_ws r3 of
                                [] \<Rightarrow> None
                              | q # r4 \<Rightarrow>
                                  if q = CHR 0x22
                                  then scan_object pf r4 (AList.update key v pairs)
                                  else None)
                           else None))))"
proof -
  have g: "length r4 < length s"
    if "scanstring s = Some (key, r0)" "skip_ws r0 = colon # r1"
      "scan_once pf (skip_ws r1) = Some (v, r2)" "skip_ws r2 = d # r3" "skip_ws r3 = q # r4"
    for key r0 colon r1 v r2 d r3 q r4
  proof -
    from scanstring_shorter [OF that(1)] skip_ws_Cons_length [OF that(2)]
    have "length r1 < length s" by simp
    with skip_ws_length [of r1] scan_shorter(1) [of pf "skip_ws r1" v r2] that(3)
    have "length r2 < length s" by simp
    with skip_ws_Cons_length [OF that(4)] skip_ws_Cons_length [OF that(5)]
    show ?thesis by simp
  qed
  show ?thesis
    by (subst scan_object.simps) (auto split: option.splits list.splits dest: g)
qed

section \<open>Response normalization\<close>

definition extract_text_from_gemini :: "pylib \<Rightarrow> string \<Rightarrow> json" where
  "extract_text_from_gemini lib raw_text0 =
     (let raw_text = strip raw_text0;
          fallback = JObj [(''answer'', JStr raw_text),
                           (''imageSummary'', JStr ''''),
                           (''extractedText'', JStr ''''),
                           (''detectedLanguages'', JArr []),
                           (''safetyNotes'', JStr ''Gemini did not return JSON; fallback used.'')]
      in case loads lib raw_text of
           Some v \<Rightarrow> v
         | None \<Rightarrow>
            (let start = find_py raw_text CHR ''{'';
                 end' = rfind raw_text CHR ''}''
             in if start \<noteq> - 1 \<and> end' \<noteq> - 1 \<and> end' > start
                then (case loads lib (slice raw_text start (end' + 1)) of
                        Some v \<Rightarrow> v
                      | None \<Rightarrow> fallback)
                else fallback))"

text \<open>
  The \<^verbatim>\<open>detectedLanguages\<close> argument of the response: \<^verbatim>\<open>value or []\<close>, then the
  validation of the field declared \<^verbatim>\<open>Optional[list[str]]\<close>.
\<close>

fun validate_str_list :: "(json \<Rightarrow> string option) \<Rightarrow> json list \<Rightarrow> string list option" where
  "validate_str_list lax [] = Some []"
| "validate_str_list lax (x # xs) =
     (case (case x of JStr s \<Rightarrow> Some s | _ \<Rightarrow> lax x) of
        None \<Rightarrow> None
      | Some s \<Rightarrow> (case validate_str_list lax xs of None \<Rightarrow> None | Some ss \<Rightarrow> Some (s # ss)))"

definition languages_field :: "pylib \<Rightarrow> json \<Rightarrow> exn + string list" where
  "languages_field lib v =
     (if \<not> truthy v then Inr []
      else case v of
             JArr xs \<Rightarrow>
               (case validate_str_list (lax_str lib) xs of
                  None \<Rightarrow> Inl (ValidationError ''detectedLanguages'')
                | Some ss \<Rightarrow> Inr ss)
           | _ \<Rightarrow> Inl (ValidationError ''detectedLanguages''))"

text \<open>
  The construction of the response from the parsed value (the last statement of
  \<^verbatim>\<open>analyze_onedrive_image\<close>).  The arguments are evaluated first, and
  \<^verbatim>\<open>parsed.get\<close> exists only on a dictionary.
\<close>

definition shape_response :: "pylib \<Rightarrow> json \<Rightarrow> exn + AnalyzeResponse" where
  "shape_response lib parsed =
     (case parsed of
        JObj d \<Rightarrow>
          (case languages_field lib (dict_get d ''detectedLanguages'' (JArr [])) of
             Inl e \<Rightarrow> Inl e
           | Inr langs \<Rightarrow>
               Inr \<lparr> answer = py_str (dict_get d ''answer'' (JStr '''')),
                     imageSummary = py_str (dict_get d ''imageSummary'' (JStr '''')),
                     extractedText = py_str (dict_get d ''extractedText'' (JStr '''')),
                     detectedLanguages = langs,
                     safetyNotes = py_str (dict_get d ''safetyNotes'' (JStr '''')) \<rparr>)
      | _ \<Rightarrow> Inl (AttributeError ''get''))"

definition normalize :: "pylib \<Rightarrow> string \<Rightarrow> exn + AnalyzeResponse" where
  \<comment> \<open>\<^verbatim>\<open>_extract_text_from_gemini\<close> followed by the construction of the response\<close>
  "normalize lib raw_text = shape_response lib (extract_text_from_gemini lib raw_text)"

section \<open>Encoders\<close>

text \<open>\<^verbatim>\<open>base64.b64encode\<close>; a byte is a \<^typ>\<open>char\<close>.\<close>

type_synonym bytes = "char list"

definition b64_char :: "nat \<Rightarrow> char" where
  "b64_char i = ''ABCDEFGHIJKLMNOPQRSTUVWXYZabcdefghijklmnopqrstuvwxyz0123456789+/'' ! i"

fun b64encode :: "bytes \<Rightarrow> string" where
  "b64encode [] = []"
| "b64encode [a] =
     (let n = (of_char a :: nat)
      in [b64_char (n div 4), b64_char (n mod 4 * 16), CHR ''='', CHR ''=''])"
| "b64encode [a, b] =
     (let n = (of_char a :: nat) * 256 + of_char b
      in [b64_char (n div 1024), b64_char (n div 16 mod 64), b64_char (n mod 16 * 4), CHR ''=''])"
| "b64encode (a # b # c # rest) =
     (let n = ((of_char a :: nat) * 256 + of_char b) * 256 + of_char c
      in [b64_char (n div 262144), b64_char (n div 4096 mod 64),
          b64_char (n div 64 mod 64), b64_char (n mod 64)] @ b64encode rest)"

text \<open>
  \<^verbatim>\<open>json.dumps\<close> with its defaults: ASCII output, the separators \<^verbatim>\<open>", "\<close> and
  \<^verbatim>\<open>": "\<close>, floats by their \<^verbatim>\<open>repr\<close> except the three special values.
\<close>

definition dumps_char :: "char \<Rightarrow> string" where
  "dumps_char c =
     (if c = CHR 0x22 then [CHR 0x5C, CHR 0x22]
      else if c = CHR 0x5C then [CHR 0x5C, CHR 0x5C]
      else if c = CHR 0x0A then [CHR 0x5C, CHR ''n'']
      else if c = CHR 0x0D then [CHR 0x5C, CHR ''r'']
      else if c = CHR 0x09 then [CHR 0x5C, CHR ''t'']
      else if c = CHR 0x08 then [CHR 0x5C, CHR ''b'']
      else if c = CHR 0x0C then [CHR 0x5C, CHR ''f'']
      else if 32 \<le> (of_char c :: nat) \<and> (of_char c :: nat) \<le> 126 then [c]
      else [CHR 0x5C, CHR ''u'', CHR ''0'', CHR ''0'',
            hex_digit (of_char c div 16), hex_digit (of_char c mod 16)])"

definition dumps_str :: "string \<Rightarrow> string" where
  "dumps_str s = CHR 0x22 # concat (map dumps_char s) @ [CHR 0x22]"

fun json_dumps :: "json \<Rightarrow> string" where
  "json_dumps JNull = ''null''"
| "json_dumps (JBool b) = (if b then ''true'' else ''false'')"
| "json_dumps (JInt i) = str_int i"
| "json_dumps (JFloat r) =
     (if r = ''nan'' then ''NaN''
      else if r = ''inf'' then ''Infinity''
      else if r = ''-inf'' then ''-Infinity''
      else r)"
| "json_dumps (JStr s) = dumps_str s"
| "json_dumps (JArr xs) = ''['' @ join '', '' (map json_dumps xs) @ '']''"
| "json_dumps (JObj kvs) =
     ''{'' @ join '', '' (map (\<lambda>kv. dumps_str (fst kv) @ '': '' @ json_dumps (snd kv)) kvs) @ ''}''"

section \<open>The request handler\<close>

text \<open>
  The two outbound calls are the handler's only effects.  The world answers a call
  with a response or with the exception the client raises (a timeout, a refused
  connection); the handler returns the calls it made, in order, with its result.
  \<open>resp_text\<close> is the response's \<^verbatim>\<open>.text\<close>; \<open>json_result\<close> is what \<^verbatim>\<open>.json()\<close> returns on
  it, \<open>None\<close> when it raises.
\<close>

record response =
  status_code :: int
  content :: bytes
  resp_text :: string
  json_result :: "json option"

datatype call = GET string | POST string json

record world =
  http_get :: "string \<Rightarrow> exn + response"
  http_post :: "string \<Rightarrow> json \<Rightarrow> exn + response"

definition system_prompt :: "AnalyzeRequest \<Rightarrow> string" where
  "system_prompt payload =
     (let lang_line =
            (case languageCode payload of
               None \<Rightarrow> []
             | Some l \<Rightarrow> if l \<noteq> [] then ''\<newline>Respond in language: '' @ l else []);
          hint_line =
            (case contextHint payload of
               None \<Rightarrow> []
             | Some h \<Rightarrow> if h \<noteq> [] then ''\<newline>Context hint: '' @ h else [])
      in strip
           (''\<newline>You are a vision assistant. You will receive an image and a user question about it.\<newline>''
            @ ''Answer the user's question based only on what is visible in the image.\<newline>''
            @ ''Also extract any readable text.\<newline>''
            @ ''\<newline>''
            @ ''Return a JSON object with fields:\<newline>''
            @ ''- answer: string (direct answer to userQuery)\<newline>''
            @ ''- imageSummary: string (brief neutral description)\<newline>''
            @ ''- extractedText: string (all visible text, best effort)\<newline>''
            @ ''- detectedLanguages: array of strings (languages of extracted text)\<newline>''
            @ ''- safetyNotes: string (uncertainty or quality notes)\<newline>''
            @ ''\<newline>''
            @ ''User question:\<newline>''
            @ userQuery payload @ ''\<newline>''
            @ hint_line @ ''\<newline>''
            @ lang_line @ ''\<newline>''))"

definition gemini_url :: "config \<Rightarrow> string" where
  "gemini_url cfg =
     ''https://generativelanguage.googleapis.com/v1beta/models/''
     @ GEMINI_MODEL cfg @ '':generateContent?key='' @ GEMINI_API_KEY cfg"

definition gemini_body :: "string \<Rightarrow> string \<Rightarrow> string \<Rightarrow> json" where
  "gemini_body prompt mime_type image_b64 =
     JObj [(''contents'',
            JArr [JObj [(''parts'',
                         JArr [JObj [(''text'', JStr prompt)],
                               JObj [(''inline_data'',
                                      JObj [(''mime_type'', JStr mime_type),
                                            (''data'', JStr image_b64)])]])]]),
           (''generationConfig'',
            JObj [(''temperature'', JFloat ''0.2''),
                  (''response_mime_type'', JStr ''application/json'')])]"

text \<open>
  Subscripting as the handler uses it on the provider's envelope: \<^verbatim>\<open>v[key]\<close> with a
  \<^verbatim>\<open>str\<close> key and \<^verbatim>\<open>v[0]\<close>; \<open>None\<close> stands for the exception (\<^verbatim>\<open>KeyError\<close>,
  \<^verbatim>\<open>IndexError\<close>, \<^verbatim>\<open>TypeError\<close>), which the handler catches.
\<close>

definition subscript_key :: "json \<Rightarrow> string \<Rightarrow> json option" where
  "subscript_key v key = (case v of JObj d \<Rightarrow> map_of d key | _ \<Rightarrow> None)"

definition subscript_0 :: "json \<Rightarrow> json option" where
  "subscript_0 v =
     (case v of
        JArr (x # xs) \<Rightarrow> Some x
      | JStr (c # cs) \<Rightarrow> Some (JStr [c])
      | _ \<Rightarrow> None)"

definition first_text :: "json \<Rightarrow> json option" where
  \<comment> \<open>\<^verbatim>\<open>data["candidates"][0]["content"]["parts"][0]["text"]\<close>\<close>
  "first_text data =
     Option.bind (subscript_key data ''candidates'') (\<lambda>v1.
     Option.bind (subscript_0 v1) (\<lambda>v2.
     Option.bind (subscript_key v2 ''content'') (\<lambda>v3.
     Option.bind (subscript_key v3 ''parts'') (\<lambda>v4.
     Option.bind (subscript_0 v4) (\<lambda>v5.
     subscript_key v5 ''text'')))))"

definition analyze_onedrive_image ::
  "pylib \<Rightarrow> config \<Rightarrow> world \<Rightarrow> AnalyzeRequest \<Rightarrow> string option
     \<Rightarrow> call list \<times> (exn + AnalyzeResponse)" where
  "analyze_onedrive_image lib cfg w payload authorization =
     (case check_api_key (API_KEY cfg) authorization of
        Inl e \<Rightarrow> ([], Inl e)
      | Inr _ \<Rightarrow>
          if GEMINI_API_KEY cfg = []
          then ([], Inl (HTTPException 500 ''GEMINI_API_KEY not configured''))
          else
            (let mime_type = guess_mime (downloadUrl payload);
                 calls1 = [GET (downloadUrl payload)]
             in case http_get w (downloadUrl payload) of
                  Inl e \<Rightarrow> (calls1, Inl e)
                | Inr img_resp \<Rightarrow>
                    if status_code img_resp \<noteq> 200
                    then (calls1,
                          Inl (HTTPException 404
                                 (''Failed to fetch image from OneDrive (status ''
                                  @ str_int (status_code img_resp) @ '')'')))
                    else
                      (let image_b64 = b64encode (content img_resp);
                           body = gemini_body (system_prompt payload) mime_type image_b64;
                           calls2 = calls1 @ [POST (gemini_url cfg) body]
                       in case http_post w (gemini_url cfg) body of
                            Inl e \<Rightarrow> (calls2, Inl e)
                          | Inr g_resp \<Rightarrow>
                              if status_code g_resp \<noteq> 200
                              then (calls2,
                                    Inl (HTTPException 500
                                           (''Gemini error '' @ str_int (status_code g_resp)
                                            @ '': '' @ resp_text g_resp)))
                              else
                                (case json_result g_resp of
                                   None \<Rightarrow> (calls2, Inl JSONDecodeError)
                                 | Some data \<Rightarrow>
                                     (let raw_text =
                                            (case first_text data of
                                               Some t \<Rightarrow> t
                                             | None \<Rightarrow> JStr (json_dumps data))
                                      in case raw_text of
                                           JStr s \<Rightarrow> (calls2, normalize lib s)
                                         | _ \<Rightarrow> (calls2, Inl (AttributeError ''strip'')))))))"

section \<open>The reference library and example data\<close>

text \<open>
  \<open>literal_float\<close> stands for \<^verbatim>\<open>float\<close> on a number literal, giving the \<^verbatim>\<open>repr\<close> of the
  result; it keeps the literal, which is exact for a literal already in \<^verbatim>\<open>repr\<close>
  form.  No text evaluated below contains a number with a fraction or an exponent.
  The reference library rejects list elements that are not \<^verbatim>\<open>str\<close>.
\<close>

definition literal_float :: "string \<Rightarrow> string" where
  "literal_float lexeme = lexeme"

definition reference_lib :: pylib where
  "reference_lib = \<lparr> loads = json_loads literal_float, lax_str = (\<lambda>v. None) \<rparr>"

definition example_config :: config where
  "example_config =
     \<lparr> API_KEY = ''k'', GEMINI_API_KEY = ''g'', GEMINI_MODEL = ''gemini-1.5-flash'' \<rparr>"

definition example_payload :: AnalyzeRequest where
  "example_payload =
     \<lparr> downloadUrl = ''https://files.example/cat.png'', userQuery = ''What is this?'',
       itemId = None, languageCode = None, contextHint = None \<rparr>"

definition world_fetch_status :: "int \<Rightarrow> world" where
  "world_fetch_status s =
     \<lparr> http_get = (\<lambda>url. Inr \<lparr> status_code = s, content = [], resp_text = [],
                                 json_result = None \<rparr>),
       http_post = (\<lambda>url body. Inl (TransportError ''no route'')) \<rparr>"

text \<open>
  A world in which both outbound calls succeed and the provider's envelope carries
  the text \<open>t\<close>.
\<close>

definition gemini_envelope :: "string \<Rightarrow> json" where
  "gemini_envelope t =
     JObj [(''candidates'',
            JArr [JObj [(''content'', JObj [(''parts'', JArr [JObj [(''text'', JStr t)]])])]])]"

definition world_reply :: "string \<Rightarrow> world" where
  "world_reply t =
     \<lparr> http_get = (\<lambda>url. Inr \<lparr> status_code = 200, content = ''img'', resp_text = [],
                                 json_result = None \<rparr>),
       http_post = (\<lambda>url body. Inr \<lparr> status_code = 200, content = [],
                                       resp_text = json_dumps (gemini_envelope t),
                                       json_result = Some (gemini_envelope t) \<rparr>) \<rparr>"

section \<open>Properties of the authenticator\<close>

lemma strip_Nil: "strip [] = []"
  by (simp add: strip_def)

text \<open>
  C2, as the code has it.  With a non-empty secret the check succeeds exactly when
  the authorization header, after leading and trailing whitespace is removed, is
  \<^verbatim>\<open>"Bearer "\<close> followed by the secret; every other header gives the 403 error, and so
  does a missing header.
\<close>

theorem check_api_key_trimmed_bearer:
  assumes "api_key \<noteq> []"
  shows "(check_api_key api_key h = Inr ()) = (strip (header_text h) = ''Bearer '' @ api_key) \<and>
         (strip (header_text h) \<noteq> ''Bearer '' @ api_key \<longrightarrow>
            check_api_key api_key h = Inl (HTTPException 403 ''Forbidden'')) \<and>
         check_api_key api_key None = Inl (HTTPException 403 ''Forbidden'')"
  using assms by (simp add: check_api_key_def header_text_def Let_def strip_Nil)

theorem check_api_key_trimmed_bearer_witness:
  "''s3cret'' \<noteq> [] \<and>
   check_api_key ''s3cret'' (Some ''Bearer s3cret'') = Inr () \<and>
   strip (header_text (Some ''Bearer s3cret'')) = ''Bearer '' @ ''s3cret'' \<and>
   check_api_key ''s3cret'' (Some ''Bearer other'') = Inl (HTTPException 403 ''Forbidden'') \<and>
   check_api_key ''s3cret'' None = Inl (HTTPException 403 ''Forbidden'')"
proof -
  have k: "''s3cret'' \<noteq> []" by simp
  have a: "strip (header_text (Some ''Bearer s3cret'')) = ''Bearer '' @ ''s3cret''" by code_simp
  have b: "strip (header_text (Some ''Bearer other'')) \<noteq> ''Bearer '' @ ''s3cret''" by code_simp
  note t = check_api_key_trimmed_bearer [OF k]
  note r1 = t [THEN conjunct1, THEN iffD2, OF a]
  note r2 = t [THEN conjunct2, THEN conjunct1, THEN mp, OF b]
  note r3 = t [of None, THEN conjunct2, THEN conjunct2]
  show ?thesis by (intro conjI k a r1 r2 r3)
qed

text \<open>
  The header is compared after trimming, the secret is not trimmed: a header with a
  trailing blank passes although it is not \<^verbatim>\<open>"Bearer "\<close> followed by the secret, and a
  header equal to \<^verbatim>\<open>"Bearer "\<close> followed by a secret that ends in a blank is refused.
\<close>

theorem check_api_key_exact_header_counterexample:
  "check_api_key ''k'' (Some ''Bearer k '') = Inr () \<and>
   ''Bearer k '' \<noteq> ''Bearer '' @ ''k'' \<and>
   ''Bearer k '' = ''Bearer '' @ ''k '' \<and>
   check_api_key ''k '' (Some ''Bearer k '') = Inl (HTTPException 403 ''Forbidden'')"
  by code_simp

section \<open>Properties of MIME guessing\<close>

text \<open>
  A URL ends case-insensitively in an extension (written in lower case) when its
  last characters, lowered, are the extension.
\<close>

definition ends_with_ci :: "string \<Rightarrow> string \<Rightarrow> bool" where
  "ends_with_ci url ext =
     (length ext \<le> length url \<and> lower (drop (length url - length ext) url) = ext)"

lemma endswith_lower: "endswith (lower url) ext = ends_with_ci url ext"
  by (simp add: endswith_def ends_with_ci_def lower_def drop_map)

lemma ends_with_ci_iff:
  "ends_with_ci url ext = (\<exists>pre suf. url = pre @ suf \<and> lower suf = ext)"
proof
  assume "ends_with_ci url ext"
  then have "url = take (length url - length ext) url @ drop (length url - length ext) url
      \<and> lower (drop (length url - length ext) url) = ext"
    by (simp add: ends_with_ci_def)
  then show "\<exists>pre suf. url = pre @ suf \<and> lower suf = ext" by blast
next
  assume "\<exists>pre suf. url = pre @ suf \<and> lower suf = ext"
  then obtain pre suf where u: "url = pre @ suf" and l: "lower suf = ext" by blast
  from l have "length ext = length suf" by (auto simp: lower_def)
  with u l show "ends_with_ci url ext" by (simp add: ends_with_ci_def)
qed

lemma endswith_two:
  assumes "endswith u e" "endswith u e'" "length e \<le> length e'"
  shows "e = drop (length e' - length e) e'"
proof -
  from assms have le: "length e' \<le> length u" and e': "e' = drop (length u - length e') u"
    and e: "e = drop (length u - length e) u"
    by (simp_all add: endswith_def)
  have "drop (length e' - length e) (drop (length u - length e') u) =
      drop (length u - length e) u"
    using le assms(3) by simp
  with e e' show ?thesis by metis
qed



text \<open>
  C7.  For every URL the guessed type is decided, case-insensitively, by the
  trailing characters: \<^verbatim>\<open>.png\<close> gives \<^verbatim>\<open>image/png\<close>, \<^verbatim>\<open>.jpg\<close> and \<^verbatim>\<open>.jpeg\<close> give
  \<^verbatim>\<open>image/jpeg\<close>, \<^verbatim>\<open>.webp\<close> gives \<^verbatim>\<open>image/webp\<close>, and every other ending gives
  \<^verbatim>\<open>image/png\<close>.
\<close>

theorem guess_mime_by_extension:
  "(ends_with_ci url ''.png'' \<longrightarrow> guess_mime url = ''image/png'') \<and>
   (ends_with_ci url ''.jpg'' \<or> ends_with_ci url ''.jpeg'' \<longrightarrow> guess_mime url = ''image/jpeg'') \<and>
   (ends_with_ci url ''.webp'' \<longrightarrow> guess_mime url = ''image/webp'') \<and>
   (\<not> ends_with_ci url ''.png'' \<and> \<not> ends_with_ci url ''.jpg'' \<and> \<not> ends_with_ci url ''.jpeg''
      \<and> \<not> ends_with_ci url ''.webp'' \<longrightarrow> guess_mime url = ''image/png'')"
proof -
  define u where "u = lower url"
  have d1: "\<not> (endswith u ''.png'' \<and> endswith u ''.jpg'')"
    using endswith_two [of u "''.png''" "''.jpg''"] by auto
  have d2: "\<not> (endswith u ''.png'' \<and> endswith u ''.jpeg'')"
    using endswith_two [of u "''.png''" "''.jpeg''"] by auto
  have d3: "\<not> (endswith u ''.jpg'' \<and> endswith u ''.webp'')"
    using endswith_two [of u "''.jpg''" "''.webp''"] by auto
  have d4: "\<not> (endswith u ''.webp'' \<and> endswith u ''.jpeg'')"
    using endswith_two [of u "''.webp''" "''.jpeg''"] by auto
  have g: "guess_mime url =
      (if endswith u ''.png'' then ''image/png''
       else if endswith u ''.jpg'' \<or> endswith u ''.jpeg'' then ''image/jpeg''
       else if endswith u ''.webp'' then ''image/webp''
       else ''image/png'')"
    by (simp only: guess_mime_def Let_def u_def)
  have e: "ends_with_ci url ext = endswith u ext" for ext
    by (simp only: u_def endswith_lower)
  have d5: "\<not> (endswith u ''.png'' \<and> endswith u ''.webp'')"
    using endswith_two [of u "''.png''" "''.webp''"] by auto
  show ?thesis
  proof (cases "endswith u ''.png''")
    case True
    with d1 d2 d5 show ?thesis by (simp add: g e)
  next
    case False
    note np = this
    show ?thesis
    proof (cases "endswith u ''.jpg'' \<or> endswith u ''.jpeg''")
      case True
      with np d3 d4 show ?thesis by (auto simp add: g e)
    next
      case False
      with np show ?thesis by (simp add: g e)
    qed
  qed
qed

theorem guess_mime_by_extension_witness:
  "ends_with_ci ''https://h/a/Photo.PNG'' ''.png'' \<and>
   guess_mime ''https://h/a/Photo.PNG'' = ''image/png'' \<and>
   ends_with_ci ''x.jpEG'' ''.jpeg'' \<and> guess_mime ''x.jpEG'' = ''image/jpeg'' \<and>
   ends_with_ci ''x.WEBP'' ''.webp'' \<and> guess_mime ''x.WEBP'' = ''image/webp'' \<and>
   guess_mime ''x.gif'' = ''image/png''"
proof -
  have e1: "ends_with_ci ''https://h/a/Photo.PNG'' ''.png''" by code_simp
  have e2: "ends_with_ci ''x.jpEG'' ''.jpg'' \<or> ends_with_ci ''x.jpEG'' ''.jpeg''" by code_simp
  have e2': "ends_with_ci ''x.jpEG'' ''.jpeg''" by code_simp
  have e3: "ends_with_ci ''x.WEBP'' ''.webp''" by code_simp
  have e4: "\<not> ends_with_ci ''x.gif'' ''.png'' \<and> \<not> ends_with_ci ''x.gif'' ''.jpg'' \<and>
      \<not> ends_with_ci ''x.gif'' ''.jpeg'' \<and> \<not> ends_with_ci ''x.gif'' ''.webp''"
    by code_simp
  note t = guess_mime_by_extension
  note r1 = t [THEN conjunct1, THEN mp, OF e1]
  note r2 = t [THEN conjunct2, THEN conjunct1, THEN mp, OF e2]
  note r3 = t [THEN conjunct2, THEN conjunct2, THEN conjunct1, THEN mp, OF e3]
  note r4 = t [THEN conjunct2, THEN conjunct2, THEN conjunct2, THEN mp, OF e4]
  show ?thesis
    by (intro conjI e1 e2' e3 r1 r2 r3 r4)
qed

section \<open>Properties of the request handler\<close>

text \<open>
  C3, as the code has it.  With the inbound secret unset every call fails with the
  500 configuration error, whatever the header, before any outbound call.  With the
  inference-provider key unset, a call that passes the inbound check fails with the
  500 configuration error of that key; a call whose credential does not match a
  configured secret gets the 403 error first.
\<close>

theorem configuration_errors:
  "(API_KEY cfg = [] \<longrightarrow>
      analyze_onedrive_image lib cfg w payload h =
        ([], Inl (HTTPException 500 ''Server API_KEY not configured''))) \<and>
   (GEMINI_API_KEY cfg = [] \<and> check_api_key (API_KEY cfg) h = Inr () \<longrightarrow>
      analyze_onedrive_image lib cfg w payload h =
        ([], Inl (HTTPException 500 ''GEMINI_API_KEY not configured''))) \<and>
   (GEMINI_API_KEY cfg = [] \<and> API_KEY cfg \<noteq> []
      \<and> strip (header_text h) \<noteq> ''Bearer '' @ API_KEY cfg \<longrightarrow>
      analyze_onedrive_image lib cfg w payload h = ([], Inl (HTTPException 403 ''Forbidden'')))"
  by (simp add: analyze_onedrive_image_def check_api_key_def header_text_def Let_def)

theorem configuration_errors_witness:
  "API_KEY (example_config\<lparr>API_KEY := []\<rparr>) = [] \<and>
   analyze_onedrive_image reference_lib (example_config\<lparr>API_KEY := []\<rparr>)
       (world_fetch_status 200) example_payload (Some ''Bearer k'') =
     ([], Inl (HTTPException 500 ''Server API_KEY not configured'')) \<and>
   GEMINI_API_KEY (example_config\<lparr>GEMINI_API_KEY := []\<rparr>) = [] \<and>
   check_api_key (API_KEY (example_config\<lparr>GEMINI_API_KEY := []\<rparr>)) (Some ''Bearer k'') = Inr () \<and>
   analyze_onedrive_image reference_lib (example_config\<lparr>GEMINI_API_KEY := []\<rparr>)
       (world_fetch_status 200) example_payload (Some ''Bearer k'') =
     ([], Inl (HTTPException 500 ''GEMINI_API_KEY not configured''))"
proof -
  have a: "API_KEY (example_config\<lparr>API_KEY := []\<rparr>) = []" by simp
  have b: "GEMINI_API_KEY (example_config\<lparr>GEMINI_API_KEY := []\<rparr>) = []" by simp
  have c: "check_api_key (API_KEY (example_config\<lparr>GEMINI_API_KEY := []\<rparr>)) (Some ''Bearer k'') = Inr ()"
    by code_simp
  note r1 = configuration_errors [THEN conjunct1, THEN mp, OF a]
  note r2 = configuration_errors [THEN conjunct2, THEN conjunct1, THEN mp, OF conjI [OF b c]]
  show ?thesis by (intro conjI a b c r1 r2)
qed

text \<open>
  With the inference-provider key unset, a configured inbound secret and no
  authorization header, the response is 403, not 500.
\<close>

theorem gemini_key_unset_counterexample:
  "GEMINI_API_KEY (example_config\<lparr>GEMINI_API_KEY := []\<rparr>) = [] \<and>
   analyze_onedrive_image reference_lib (example_config\<lparr>GEMINI_API_KEY := []\<rparr>)
       (world_fetch_status 200) example_payload None =
     ([], Inl (HTTPException 403 ''Forbidden''))"
  by code_simp

lemma contains_self_prefix: "contains (b @ c) b"
proof (cases "b @ c")
  case Nil
  then show ?thesis by simp
next
  case (Cons x xs)
  have "take (length b) (b @ c) = b" by simp
  then have "take (length b) (x # xs) = b" unfolding Cons .
  then have "contains (x # xs) b" by simp
  then show ?thesis unfolding Cons .
qed

lemma contains_infix: "contains (a @ b @ c) b"
  by (induction a) (auto simp: contains_self_prefix)

text \<open>
  C8.  When the request passes both configuration checks and the image fetch answers
  with a status other than 200, the handler fails with the 404 error whose detail
  contains the decimal status, and the only outbound call made is the fetch: the
  inference call is not made.
\<close>

theorem fetch_failure:
  assumes "check_api_key (API_KEY cfg) h = Inr ()"
    and "GEMINI_API_KEY cfg \<noteq> []"
    and "http_get w (downloadUrl payload) = Inr r"
    and "status_code r \<noteq> 200"
  shows "analyze_onedrive_image lib cfg w payload h =
           ([GET (downloadUrl payload)],
            Inl (HTTPException 404
                   (''Failed to fetch image from OneDrive (status ''
                    @ str_int (status_code r) @ '')''))) \<and>
         contains (''Failed to fetch image from OneDrive (status ''
                    @ str_int (status_code r) @ '')'') (str_int (status_code r)) \<and>
         (\<forall>url body. POST url body \<notin> set (fst (analyze_onedrive_image lib cfg w payload h)))"
proof -
  have r: "analyze_onedrive_image lib cfg w payload h =
           ([GET (downloadUrl payload)],
            Inl (HTTPException 404
                   (''Failed to fetch image from OneDrive (status ''
                    @ str_int (status_code r) @ '')'')))"
    using assms by (simp add: analyze_onedrive_image_def Let_def)
  have c: "contains (''Failed to fetch image from OneDrive (status ''
                    @ str_int (status_code r) @ '')'') (str_int (status_code r))"
    by (rule contains_infix)
  have p: "\<forall>url body. POST url body \<notin> set (fst (analyze_onedrive_image lib cfg w payload h))"
    by (simp add: r)
  from r c p show ?thesis by (intro conjI)
qed

theorem fetch_failure_witness:
  "check_api_key (API_KEY example_config) (Some ''Bearer k'') = Inr () \<and>
   GEMINI_API_KEY example_config \<noteq> [] \<and>
   status_code \<lparr> status_code = 404, content = [], resp_text = [], json_result = None \<rparr> \<noteq> 200 \<and>
   analyze_onedrive_image reference_lib example_config (world_fetch_status 404) example_payload
       (Some ''Bearer k'') =
     ([GET ''https://files.example/cat.png''],
      Inl (HTTPException 404 ''Failed to fetch image from OneDrive (status 404)'')) \<and>
   contains ''Failed to fetch image from OneDrive (status 404)'' ''404''"
proof -
  let ?r = "\<lparr> status_code = 404, content = [], resp_text = [], json_result = None \<rparr>"
  have a: "check_api_key (API_KEY example_config) (Some ''Bearer k'') = Inr ()" by code_simp
  have b: "GEMINI_API_KEY example_config \<noteq> []" by code_simp
  have c: "http_get (world_fetch_status 404) (downloadUrl example_payload) = Inr ?r"
    by (simp add: world_fetch_status_def)
  have d: "status_code ?r \<noteq> 200" by simp
  have u: "downloadUrl example_payload = ''https://files.example/cat.png''"
    by (simp add: example_payload_def)
  have s: "status_code ?r = 404" by simp
  have n: "str_int 404 = ''404''" by code_simp
  note t = fetch_failure [OF a b c d, of reference_lib]
  from t [THEN conjunct1] have r1:
    "analyze_onedrive_image reference_lib example_config (world_fetch_status 404) example_payload
       (Some ''Bearer k'') =
     ([GET ''https://files.example/cat.png''],
      Inl (HTTPException 404 ''Failed to fetch image from OneDrive (status 404)''))"
    unfolding u s n by simp
  from t [THEN conjunct2, THEN conjunct1] have r2:
    "contains ''Failed to fetch image from OneDrive (status 404)'' ''404''"
    unfolding s n by simp
  show ?thesis by (intro conjI a b d r1 r2)
qed

text \<open>
  When both outbound calls succeed and the envelope carries a text, the handler's
  result is the normalization of that text.
\<close>

lemma first_text_envelope: "first_text (gemini_envelope t) = Some (JStr t)"
  by (simp add: first_text_def gemini_envelope_def subscript_key_def subscript_0_def)

lemma handler_reaches_normalize:
  assumes "check_api_key (API_KEY cfg) h = Inr ()"
    and "GEMINI_API_KEY cfg \<noteq> []"
    and "http_get w (downloadUrl payload) = Inr img"
    and "status_code img = 200"
    and "http_post w (gemini_url cfg)
           (gemini_body (system_prompt payload) (guess_mime (downloadUrl payload))
              (b64encode (content img))) = Inr g"
    and "status_code g = 200"
    and "json_result g = Some data"
    and "first_text data = Some (JStr s)"
  shows "snd (analyze_onedrive_image lib cfg w payload h) = normalize lib s"
  using assms by (simp add: analyze_onedrive_image_def Let_def)

lemma handler_on_reply:
  "snd (analyze_onedrive_image lib example_config (world_reply t) example_payload
          (Some ''Bearer k'')) = normalize lib t"
proof -
  let ?img = "\<lparr> status_code = 200, content = ''img'', resp_text = [], json_result = None \<rparr>"
  let ?g = "\<lparr> status_code = 200, content = [], resp_text = json_dumps (gemini_envelope t),
              json_result = Some (gemini_envelope t) \<rparr>"
  have a: "check_api_key (API_KEY example_config) (Some ''Bearer k'') = Inr ()" by code_simp
  have b: "GEMINI_API_KEY example_config \<noteq> []" by code_simp
  have c: "http_get (world_reply t) (downloadUrl example_payload) = Inr ?img"
    by (simp add: world_reply_def)
  have d: "status_code ?img = 200" by simp
  have e: "http_post (world_reply t) (gemini_url example_config)
           (gemini_body (system_prompt example_payload) (guess_mime (downloadUrl example_payload))
              (b64encode (content ?img))) = Inr ?g"
    by (simp add: world_reply_def)
  have f: "status_code ?g = 200" by simp
  have g: "json_result ?g = Some (gemini_envelope t)" by simp
  show ?thesis
    by (rule handler_reaches_normalize [OF a b c d e f g first_text_envelope])
qed

section \<open>Properties of response normalization\<close>

text \<open>
  The first and the last occurrence of a character, stated on the text itself, and
  their agreement with \<open>find_py\<close> and \<open>rfind\<close>.
\<close>

definition is_first :: "string \<Rightarrow> char \<Rightarrow> nat \<Rightarrow> bool" where
  "is_first s c i = (i < length s \<and> s ! i = c \<and> c \<notin> set (take i s))"

definition is_last :: "string \<Rightarrow> char \<Rightarrow> nat \<Rightarrow> bool" where
  "is_last s c j = (j < length s \<and> s ! j = c \<and> c \<notin> set (drop (Suc j) s))"

lemma find_from_notin: "c \<notin> set s \<Longrightarrow> find_from k c s = - 1"
  by (induction s arbitrary: k) auto

lemma find_from_first: "is_first s c i \<Longrightarrow> find_from k c s = k + int i"
proof (induction s arbitrary: k i)
  case Nil
  then show ?case by (simp add: is_first_def)
next
  case (Cons x xs)
  show ?case
  proof (cases i)
    case 0
    with Cons.prems show ?thesis by (simp add: is_first_def)
  next
    case (Suc i')
    with Cons.prems have "x \<noteq> c" and "is_first xs c i'"
      by (auto simp: is_first_def)
    with Cons.IH [of i' "k + 1"] Suc show ?thesis by simp
  qed
qed

lemma first_exists: "c \<in> set s \<Longrightarrow> \<exists>i. is_first s c i"
proof (induction s)
  case Nil
  then show ?case by simp
next
  case (Cons x xs)
  show ?case
  proof (cases "x = c")
    case True
    then have "is_first (x # xs) c 0" by (simp add: is_first_def)
    then show ?thesis ..
  next
    case False
    with Cons obtain i where "is_first xs c i" by auto
    with False have "is_first (x # xs) c (Suc i)" by (auto simp: is_first_def)
    then show ?thesis ..
  qed
qed

lemma is_first_rev: "is_last s c j \<Longrightarrow> is_first (rev s) c (length s - 1 - j)"
proof -
  assume a: "is_last s c j"
  then have j: "j < length s" by (simp add: is_last_def)
  then have "length s - (length s - 1 - j) = Suc j" by simp
  then have "take (length s - 1 - j) (rev s) = rev (drop (Suc j) s)"
    by (simp add: take_rev)
  moreover from j have "rev s ! (length s - 1 - j) = s ! j"
    by (simp add: rev_nth)
  ultimately show ?thesis using a j by (simp add: is_first_def is_last_def)
qed

lemma is_last_rev: "is_first (rev s) c k \<Longrightarrow> is_last s c (length s - 1 - k)"
proof -
  assume a: "is_first (rev s) c k"
  then have k: "k < length s" by (simp add: is_first_def)
  then have "Suc (length s - 1 - k) = length s - k" by simp
  then have "rev (drop (Suc (length s - 1 - k)) s) = take k (rev s)"
    by (simp add: take_rev)
  then have "set (drop (Suc (length s - 1 - k)) s) = set (take k (rev s))"
    by (metis set_rev)
  moreover from k have "s ! (length s - 1 - k) = rev s ! k"
    by (simp add: rev_nth)
  ultimately show ?thesis using a k by (simp add: is_first_def is_last_def)
qed

lemma find_first: "is_first s c i \<Longrightarrow> find_py s c = int i"
  by (simp add: find_py_def find_from_first)

lemma find_none: "c \<notin> set s \<Longrightarrow> find_py s c = - 1"
  by (simp add: find_py_def find_from_notin)

lemma rfind_last: "is_last s c j \<Longrightarrow> rfind s c = int j"
proof -
  assume a: "is_last s c j"
  then have j: "j < length s" by (simp add: is_last_def)
  from is_first_rev [OF a] have "find_from 0 c (rev s) = int (length s - 1 - j)"
    by (simp add: find_from_first)
  with j show ?thesis by (simp add: rfind_def Let_def)
qed

lemma rfind_none: "c \<notin> set s \<Longrightarrow> rfind s c = - 1"
  by (simp add: rfind_def find_from_notin)

lemma last_exists: "c \<in> set s \<Longrightarrow> \<exists>j. is_last s c j"
proof -
  assume "c \<in> set s"
  then have "c \<in> set (rev s)" by simp
  then obtain k where "is_first (rev s) c k" using first_exists by blast
  then have "is_last s c (length s - 1 - k)" by (rule is_last_rev)
  then show ?thesis ..
qed

lemma slice_inclusive: "i \<le> j \<Longrightarrow> slice s (int i) (int j + 1) = take (j - i + 1) (drop i s)"
  by (simp add: slice_def nat_add_distrib Suc_diff_le)

text \<open>The three outcomes of the chain, on the trimmed text \<open>t\<close>.\<close>

definition fallback_object :: "string \<Rightarrow> json" where
  "fallback_object t =
     JObj [(''answer'', JStr t),
           (''imageSummary'', JStr ''''),
           (''extractedText'', JStr ''''),
           (''detectedLanguages'', JArr []),
           (''safetyNotes'', JStr ''Gemini did not return JSON; fallback used.'')]"

lemma extract_direct:
  "loads lib (strip raw) = Some v \<Longrightarrow> extract_text_from_gemini lib raw = v"
  by (simp add: extract_text_from_gemini_def Let_def)

lemma extract_embedded:
  assumes "loads lib (strip raw) = None"
    and "is_first (strip raw) CHR ''{'' i" and "is_last (strip raw) CHR ''}'' j" and "i < j"
    and "loads lib (take (j - i + 1) (drop i (strip raw))) = Some v"
  shows "extract_text_from_gemini lib raw = v"
proof -
  have f: "find_py (strip raw) CHR ''{'' = int i" using assms(2) by (rule find_first)
  have r: "rfind (strip raw) CHR ''}'' = int j" using assms(3) by (rule rfind_last)
  have s: "slice (strip raw) (int i) (int j + 1) = take (j - i + 1) (drop i (strip raw))"
    using assms(4) by (simp add: slice_inclusive)
  show ?thesis
    using assms(1,4,5) by (simp add: extract_text_from_gemini_def Let_def f r s)
qed

lemma extract_fallback:
  assumes "loads lib (strip raw) = None"
    and "\<forall>i j. is_first (strip raw) CHR ''{'' i \<and> is_last (strip raw) CHR ''}'' j \<and> i < j \<longrightarrow>
           loads lib (take (j - i + 1) (drop i (strip raw))) = None"
  shows "extract_text_from_gemini lib raw = fallback_object (strip raw)"
proof (cases "CHR ''{'' \<in> set (strip raw) \<and> CHR ''}'' \<in> set (strip raw)")
  case False
  then have "find_py (strip raw) CHR ''{'' = - 1 \<or> rfind (strip raw) CHR ''}'' = - 1"
    using find_none rfind_none by blast
  with assms(1) show ?thesis
    by (auto simp: extract_text_from_gemini_def Let_def fallback_object_def)
next
  case True
  then obtain i j where i: "is_first (strip raw) CHR ''{'' i" and j: "is_last (strip raw) CHR ''}'' j"
    using first_exists last_exists by blast
  have f: "find_py (strip raw) CHR ''{'' = int i" using i by (rule find_first)
  have r: "rfind (strip raw) CHR ''}'' = int j" using j by (rule rfind_last)
  show ?thesis
  proof (cases "i < j")
    case True
    with assms(2) i j have "loads lib (take (j - i + 1) (drop i (strip raw))) = None" by blast
    with True assms(1) show ?thesis
      by (simp add: extract_text_from_gemini_def Let_def f r slice_inclusive fallback_object_def)
  next
    case False
    with assms(1) show ?thesis
      by (simp add: extract_text_from_gemini_def Let_def f r fallback_object_def)
  qed
qed

lemma validate_str_list_strings: "validate_str_list lax (map JStr ls) = Some ls"
  by (induction ls) auto

lemma languages_field_strings: "languages_field lib (JArr (map JStr ls)) = Inr ls"
  by (cases ls) (simp_all add: languages_field_def validate_str_list_strings)

lemma languages_field_falsy: "\<not> truthy v \<Longrightarrow> languages_field lib v = Inr []"
  by (simp add: languages_field_def)

lemma shape_response_fallback:
  "shape_response lib (fallback_object t) =
     Inr \<lparr> answer = t, imageSummary = '''', extractedText = '''', detectedLanguages = [],
           safetyNotes = ''Gemini did not return JSON; fallback used.'' \<rparr>"
  by (simp add: shape_response_def fallback_object_def dict_get_def languages_field_def
      py_str_def)

text \<open>
  C5, as the code has it.  For every raw text on which both parse attempts fail (the
  trimmed text does not parse, and the inclusive substring from the first \<^verbatim>\<open>{\<close> to
  the last \<^verbatim>\<open>}\<close>, when there is one, does not parse either), the normalizer
  produces the synthetic object whose answer is the trimmed raw text, whose
  imageSummary and extractedText are empty, whose detectedLanguages is the empty
  list and whose safetyNotes is the fixed marker; the response built from it has
  the same five values.
\<close>

theorem fallback_wraps_trimmed_text:
  assumes "loads lib (strip raw) = None"
    and "\<forall>i j. is_first (strip raw) CHR ''{'' i \<and> is_last (strip raw) CHR ''}'' j \<and> i < j \<longrightarrow>
           loads lib (take (j - i + 1) (drop i (strip raw))) = None"
  shows "extract_text_from_gemini lib raw =
           JObj [(''answer'', JStr (strip raw)),
                 (''imageSummary'', JStr ''''),
                 (''extractedText'', JStr ''''),
                 (''detectedLanguages'', JArr []),
                 (''safetyNotes'', JStr ''Gemini did not return JSON; fallback used.'')] \<and>
         normalize lib raw =
           Inr \<lparr> answer = strip raw, imageSummary = '''', extractedText = '''',
                 detectedLanguages = [],
                 safetyNotes = ''Gemini did not return JSON; fallback used.'' \<rparr>"
proof -
  have e: "extract_text_from_gemini lib raw = fallback_object (strip raw)"
    using assms by (rule extract_fallback)
  show ?thesis
    unfolding normalize_def e shape_response_fallback
    by (simp add: fallback_object_def)
qed

lemma is_first_in_set: "is_first s c i \<Longrightarrow> c \<in> set s"
  by (auto simp: is_first_def)

theorem fallback_wraps_trimmed_text_witness:
  "loads reference_lib (strip ''plain unstructured reply'') = None \<and>
   CHR ''{'' \<notin> set (strip ''plain unstructured reply'') \<and>
   strip ''plain unstructured reply'' = ''plain unstructured reply'' \<and>
   normalize reference_lib ''plain unstructured reply'' =
     Inr \<lparr> answer = ''plain unstructured reply'', imageSummary = '''', extractedText = '''',
           detectedLanguages = [],
           safetyNotes = ''Gemini did not return JSON; fallback used.'' \<rparr>"
proof -
  let ?raw = "''plain unstructured reply''"
  have a: "loads reference_lib (strip ?raw) = None" by code_simp
  have n: "CHR ''{'' \<notin> set (strip ?raw)" by code_simp
  have b: "\<forall>i j. is_first (strip ?raw) CHR ''{'' i \<and> is_last (strip ?raw) CHR ''}'' j \<and> i < j \<longrightarrow>
           loads reference_lib (take (j - i + 1) (drop i (strip ?raw))) = None"
    using n is_first_in_set by blast
  have s: "strip ?raw = ?raw" by code_simp
  from fallback_wraps_trimmed_text [OF a b, THEN conjunct2]
  have r: "normalize reference_lib ?raw =
     Inr \<lparr> answer = ?raw, imageSummary = '''', extractedText = '''',
           detectedLanguages = [],
           safetyNotes = ''Gemini did not return JSON; fallback used.'' \<rparr>"
    unfolding s .
  show ?thesis by (intro conjI a n s r)
qed

text \<open>
  The answer is the trimmed text, not the entire raw text: a reply with a blank at
  each end is wrapped without them.
\<close>

theorem fallback_answer_counterexample:
  "loads reference_lib (strip '' plain unstructured reply '') = None \<and>
   CHR ''{'' \<notin> set '' plain unstructured reply '' \<and>
   normalize reference_lib '' plain unstructured reply '' =
     Inr \<lparr> answer = ''plain unstructured reply'', imageSummary = '''', extractedText = '''',
           detectedLanguages = [],
           safetyNotes = ''Gemini did not return JSON; fallback used.'' \<rparr> \<and>
   ''plain unstructured reply'' \<noteq> '' plain unstructured reply ''"
  by code_simp

text \<open>
  C4.  The chain in order: when the trimmed text parses, the parsed value is the
  result; otherwise, when the first \<^verbatim>\<open>{\<close> stands before the last \<^verbatim>\<open>}\<close> and the
  inclusive substring between them parses, that value is the result.  On the text
  \<^verbatim>\<open>noise {"answer":"x"} trailing\<close> the chain recovers the object with the one key
  \<^verbatim>\<open>answer\<close>, and every other field of the response takes its default.
\<close>

theorem normalization_chain:
  \<open>(loads lib (strip raw) = Some v \<longrightarrow> extract_text_from_gemini lib raw = v) \<and>
   (loads lib (strip raw) = None \<and>
      is_first (strip raw) CHR ''{'' i \<and> is_last (strip raw) CHR ''}'' j \<and> i < j \<and>
      loads lib (take (j - i + 1) (drop i (strip raw))) = Some v \<longrightarrow>
        extract_text_from_gemini lib raw = v) \<and>
   extract_text_from_gemini reference_lib ''noise {"answer":"x"} trailing'' =
     JObj [(''answer'', JStr ''x'')] \<and>
   normalize reference_lib ''noise {"answer":"x"} trailing'' =
     Inr \<lparr> answer = ''x'', imageSummary = [], extractedText = [], detectedLanguages = [],
           safetyNotes = [] \<rparr>\<close>
proof -
  have c: \<open>extract_text_from_gemini reference_lib ''noise {"answer":"x"} trailing'' =
     JObj [(''answer'', JStr ''x'')]\<close>
    by code_simp
  have d: \<open>normalize reference_lib ''noise {"answer":"x"} trailing'' =
     Inr \<lparr> answer = ''x'', imageSummary = [], extractedText = [], detectedLanguages = [],
           safetyNotes = [] \<rparr>\<close>
    by code_simp
  show ?thesis
    using extract_direct [of lib raw v] extract_embedded [of lib raw i j v] c d
    by blast
qed

theorem normalization_chain_witness:
  \<open>loads reference_lib (strip '' {"answer":"x"} '') = Some (JObj [(''answer'', JStr ''x'')]) \<and>
   extract_text_from_gemini reference_lib '' {"answer":"x"} '' = JObj [(''answer'', JStr ''x'')] \<and>
   loads reference_lib (strip ''noise {"answer":"x"} trailing'') = None \<and>
   is_first (strip ''noise {"answer":"x"} trailing'') CHR ''{'' 6 \<and>
   is_last (strip ''noise {"answer":"x"} trailing'') CHR ''}'' 19 \<and>
   take (19 - 6 + 1) (drop 6 (strip ''noise {"answer":"x"} trailing'')) = ''{"answer":"x"}'' \<and>
   loads reference_lib ''{"answer":"x"}'' = Some (JObj [(''answer'', JStr ''x'')]) \<and>
   extract_text_from_gemini reference_lib ''noise {"answer":"x"} trailing'' =
     JObj [(''answer'', JStr ''x'')]\<close>
proof -
  let ?v = "JObj [(''answer'', JStr ''x'')]"
  have a: \<open>loads reference_lib (strip '' {"answer":"x"} '') = Some ?v\<close> by code_simp
  have b: \<open>loads reference_lib (strip ''noise {"answer":"x"} trailing'') = None\<close> by code_simp
  have f: \<open>is_first (strip ''noise {"answer":"x"} trailing'') CHR ''{'' 6\<close> by code_simp
  have l: \<open>is_last (strip ''noise {"answer":"x"} trailing'') CHR ''}'' 19\<close> by code_simp
  have o: "(6::nat) < 19" by simp
  have t: \<open>take (19 - 6 + 1) (drop 6 (strip ''noise {"answer":"x"} trailing'')) = ''{"answer":"x"}''\<close>
    by code_simp
  have p: \<open>loads reference_lib ''{"answer":"x"}'' = Some ?v\<close> by code_simp
  have p': \<open>loads reference_lib (take (19 - 6 + 1) (drop 6 (strip ''noise {"answer":"x"} trailing''))) = Some ?v\<close>
    unfolding t by (rule p)
  note r1 = normalization_chain [THEN conjunct1, THEN mp, OF a]
  note r2 = normalization_chain [THEN conjunct2, THEN conjunct1, THEN mp,
      OF conjI [OF b conjI [OF f conjI [OF l conjI [OF o p']]]]]
  show ?thesis by (intro conjI a r1 b f l t p r2)
qed

text \<open>
  An object has the shape of a response when each of the five keys holds a value of
  the field's type: text for the four text fields, a list of texts for
  \<^verbatim>\<open>detectedLanguages\<close>.  \<open>response_json\<close> is the object with exactly these keys.
\<close>

definition response_json :: "AnalyzeResponse \<Rightarrow> json" where
  "response_json r =
     JObj [(''answer'', JStr (answer r)),
           (''imageSummary'', JStr (imageSummary r)),
           (''extractedText'', JStr (extractedText r)),
           (''detectedLanguages'', JArr (map JStr (detectedLanguages r))),
           (''safetyNotes'', JStr (safetyNotes r))]"

definition has_shape :: "(string \<times> json) list \<Rightarrow> AnalyzeResponse \<Rightarrow> bool" where
  "has_shape d r =
     (map_of d ''answer'' = Some (JStr (answer r)) \<and>
      map_of d ''imageSummary'' = Some (JStr (imageSummary r)) \<and>
      map_of d ''extractedText'' = Some (JStr (extractedText r)) \<and>
      map_of d ''detectedLanguages'' = Some (JArr (map JStr (detectedLanguages r))) \<and>
      map_of d ''safetyNotes'' = Some (JStr (safetyNotes r)))"

lemma has_shape_response_json: "response_json r = JObj d \<Longrightarrow> has_shape d r"
  by (auto simp: response_json_def has_shape_def)

lemma shape_response_has_shape:
  assumes "has_shape d r"
  shows "shape_response lib (JObj d) = Inr r"
proof -
  from assms have g:
    "dict_get d ''answer'' (JStr []) = JStr (answer r)"
    "dict_get d ''imageSummary'' (JStr []) = JStr (imageSummary r)"
    "dict_get d ''extractedText'' (JStr []) = JStr (extractedText r)"
    "dict_get d ''detectedLanguages'' (JArr []) = JArr (map JStr (detectedLanguages r))"
    "dict_get d ''safetyNotes'' (JStr []) = JStr (safetyNotes r)"
    by (simp_all add: has_shape_def dict_get_def)
  show ?thesis
    by (simp add: shape_response_def g languages_field_strings py_str_def)
qed

text \<open>
  C9.  Round trip: when the raw text parses to an object of the shape of a response
  \<open>r\<close>, normalization followed by the construction of the response returns \<open>r\<close>,
  field for field.
\<close>

theorem round_trip:
  "(loads lib (strip raw) = Some (JObj d) \<and> has_shape d r \<longrightarrow> normalize lib raw = Inr r) \<and>
   (loads lib (strip raw) = Some (response_json r) \<longrightarrow> normalize lib raw = Inr r)"
proof -
  have a: "normalize lib raw = Inr r" if "loads lib (strip raw) = Some (JObj d)" "has_shape d r" for d
    using that by (simp add: normalize_def extract_direct shape_response_has_shape)
  have b: "normalize lib raw = Inr r" if l: "loads lib (strip raw) = Some (response_json r)"
  proof -
    obtain d where d: "response_json r = JObj d" by (simp add: response_json_def)
    from l d a [of d] has_shape_response_json [OF d] show ?thesis by simp
  qed
  from a b show ?thesis by blast
qed

definition example_response :: AnalyzeResponse where
  "example_response =
     \<lparr> answer = ''A cat.'', imageSummary = ''cat on a mat'', extractedText = '''',
       detectedLanguages = [''en'', ''fr''], safetyNotes = ''none'' \<rparr>"

theorem round_trip_witness:
  \<open>loads reference_lib
      (strip ''{"answer": "A cat.", "imageSummary": "cat on a mat", "extractedText": "", "detectedLanguages": ["en", "fr"], "safetyNotes": "none"}'')
     = Some (response_json example_response) \<and>
   normalize reference_lib
      ''{"answer": "A cat.", "imageSummary": "cat on a mat", "extractedText": "", "detectedLanguages": ["en", "fr"], "safetyNotes": "none"}''
     = Inr example_response \<and>
   loads reference_lib
      (strip ''{"safetyNotes":"none","detectedLanguages":["en","fr"],"confidence":1,"answer":"A cat.","extractedText":"","imageSummary":"cat on a mat"}'')
     = Some (JObj [(''safetyNotes'', JStr ''none''),
                   (''detectedLanguages'', JArr [JStr ''en'', JStr ''fr'']),
                   (''confidence'', JInt 1),
                   (''answer'', JStr ''A cat.''),
                   (''extractedText'', JStr []),
                   (''imageSummary'', JStr ''cat on a mat'')]) \<and>
   has_shape [(''safetyNotes'', JStr ''none''),
              (''detectedLanguages'', JArr [JStr ''en'', JStr ''fr'']),
              (''confidence'', JInt 1),
              (''answer'', JStr ''A cat.''),
              (''extractedText'', JStr []),
              (''imageSummary'', JStr ''cat on a mat'')] example_response \<and>
   normalize reference_lib
      ''{"safetyNotes":"none","detectedLanguages":["en","fr"],"confidence":1,"answer":"A cat.","extractedText":"","imageSummary":"cat on a mat"}''
     = Inr example_response\<close>
proof -
  have a: \<open>loads reference_lib
      (strip ''{"answer": "A cat.", "imageSummary": "cat on a mat", "extractedText": "", "detectedLanguages": ["en", "fr"], "safetyNotes": "none"}'')
     = Some (response_json example_response)\<close>
    by code_simp
  have b: \<open>loads reference_lib
      (strip ''{"safetyNotes":"none","detectedLanguages":["en","fr"],"confidence":1,"answer":"A cat.","extractedText":"","imageSummary":"cat on a mat"}'')
     = Some (JObj [(''safetyNotes'', JStr ''none''),
                   (''detectedLanguages'', JArr [JStr ''en'', JStr ''fr'']),
                   (''confidence'', JInt 1),
                   (''answer'', JStr ''A cat.''),
                   (''extractedText'', JStr []),
                   (''imageSummary'', JStr ''cat on a mat'')])\<close>
    by code_simp
  have c: "has_shape [(''safetyNotes'', JStr ''none''),
              (''detectedLanguages'', JArr [JStr ''en'', JStr ''fr'']),
              (''confidence'', JInt 1),
              (''answer'', JStr ''A cat.''),
              (''extractedText'', JStr []),
              (''imageSummary'', JStr ''cat on a mat'')] example_response"
    by code_simp
  note r1 = round_trip [THEN conjunct2, THEN mp, OF a]
  note r2 = round_trip [THEN conjunct1, THEN mp, OF conjI [OF b c]]
  show ?thesis by (intro conjI a r1 b c r2)
qed

lemma shape_response_falsy:
  assumes "map_of d ''detectedLanguages'' = Some v" and "\<not> truthy v"
  shows "shape_response lib (JObj d) =
           Inr \<lparr> answer = py_str (dict_get d ''answer'' (JStr [])),
                 imageSummary = py_str (dict_get d ''imageSummary'' (JStr [])),
                 extractedText = py_str (dict_get d ''extractedText'' (JStr [])),
                 detectedLanguages = [],
                 safetyNotes = py_str (dict_get d ''safetyNotes'' (JStr [])) \<rparr>"
proof -
  from assms(1) have "dict_get d ''detectedLanguages'' (JArr []) = v"
    by (simp add: dict_get_def)
  with assms(2) show ?thesis
    by (simp add: shape_response_def languages_field_falsy)
qed

text \<open>
  C10.  When the parsed object holds a falsy value under \<^verbatim>\<open>detectedLanguages\<close>
  (\<^verbatim>\<open>null\<close>, \<^verbatim>\<open>false\<close>, zero, the empty text, the empty list, the empty object), the
  response is built and its detectedLanguages is the empty list.
\<close>

theorem falsy_languages_give_empty_list:
  "(map_of d ''detectedLanguages'' = Some v \<and> \<not> truthy v \<longrightarrow>
      shape_response lib (JObj d) =
        Inr \<lparr> answer = py_str (dict_get d ''answer'' (JStr [])),
              imageSummary = py_str (dict_get d ''imageSummary'' (JStr [])),
              extractedText = py_str (dict_get d ''extractedText'' (JStr [])),
              detectedLanguages = [],
              safetyNotes = py_str (dict_get d ''safetyNotes'' (JStr [])) \<rparr>) \<and>
   (loads lib (strip raw) = Some (JObj d) \<and> map_of d ''detectedLanguages'' = Some v
      \<and> \<not> truthy v \<longrightarrow>
      (\<exists>r. normalize lib raw = Inr r \<and> detectedLanguages r = [])) \<and>
   (v = JNull \<or> v = JBool False \<or> v = JInt 0 \<or> v = JFloat ''0.0'' \<or> v = JFloat ''-0.0''
      \<or> v = JStr [] \<or> v = JArr [] \<or> v = JObj [] \<longrightarrow> \<not> truthy v)"
proof -
  have a: "normalize lib raw = shape_response lib (JObj d)"
    if "loads lib (strip raw) = Some (JObj d)"
    using that by (simp add: normalize_def extract_direct)
  have b: "\<exists>r. normalize lib raw = Inr r \<and> detectedLanguages r = []"
    if "loads lib (strip raw) = Some (JObj d)" "map_of d ''detectedLanguages'' = Some v"
      "\<not> truthy v"
    using a [OF that(1)] shape_response_falsy [OF that(2,3), of lib] by simp
  have c: "\<not> truthy v"
    if "v = JNull \<or> v = JBool False \<or> v = JInt 0 \<or> v = JFloat ''0.0'' \<or> v = JFloat ''-0.0''
      \<or> v = JStr [] \<or> v = JArr [] \<or> v = JObj []"
    using that by auto
  from b c shape_response_falsy [of d v lib] show ?thesis by blast
qed

theorem falsy_languages_give_empty_list_witness:
  \<open>loads reference_lib (strip ''{"answer": "a", "detectedLanguages": null}'') =
     Some (JObj [(''answer'', JStr ''a''), (''detectedLanguages'', JNull)]) \<and>
   map_of [(''answer'', JStr ''a''), (''detectedLanguages'', JNull)] ''detectedLanguages'' =
     Some JNull \<and>
   \<not> truthy JNull \<and>
   shape_response reference_lib (JObj [(''answer'', JStr ''a''), (''detectedLanguages'', JNull)]) =
     Inr \<lparr> answer = ''a'', imageSummary = [], extractedText = [], detectedLanguages = [],
           safetyNotes = [] \<rparr> \<and>
   (\<exists>r. normalize reference_lib ''{"answer": "a", "detectedLanguages": null}'' = Inr r \<and>
        detectedLanguages r = [])\<close>
proof -
  let ?d = "[(''answer'', JStr ''a''), (''detectedLanguages'', JNull)]"
  have a: \<open>loads reference_lib (strip ''{"answer": "a", "detectedLanguages": null}'') =
     Some (JObj ?d)\<close>
    by code_simp
  have b: "map_of ?d ''detectedLanguages'' = Some JNull" by code_simp
  have c: "\<not> truthy JNull" by simp
  have g: "py_str (dict_get ?d ''answer'' (JStr [])) = ''a''"
    "py_str (dict_get ?d ''imageSummary'' (JStr [])) = []"
    "py_str (dict_get ?d ''extractedText'' (JStr [])) = []"
    "py_str (dict_get ?d ''safetyNotes'' (JStr [])) = []"
    by code_simp+
  note t = falsy_languages_give_empty_list [of ?d JNull reference_lib]
  note r1 = t [THEN conjunct1, THEN mp, OF conjI [OF b c], unfolded g]
  note r2 = t [THEN conjunct2, THEN conjunct1, THEN mp, OF conjI [OF a conjI [OF b c]]]
  show ?thesis by (intro conjI a b c r1 r2)
qed

lemma shape_response_not_object:
  "(\<And>d. v \<noteq> JObj d) \<Longrightarrow> shape_response lib v = Inl (AttributeError ''get'')"
  by (cases v) (auto simp: shape_response_def)

lemma normalize_not_object:
  "loads lib (strip raw) = Some v \<Longrightarrow> (\<And>d. v \<noteq> JObj d) \<Longrightarrow>
     normalize lib raw = Inl (AttributeError ''get'')"
  by (simp add: normalize_def extract_direct shape_response_not_object)

text \<open>
  C1 fails on the code.  A reply that is valid JSON but not an object is returned by
  the first parse attempt as it is, and the construction of the response calls
  \<^verbatim>\<open>.get\<close> on it: an \<^verbatim>\<open>AttributeError\<close> escapes, also from the handler.  A reply
  whose \<^verbatim>\<open>detectedLanguages\<close> is a text fails the validation of the response.
\<close>

theorem normalize_raises_on_array:
  \<open>loads reference_lib (strip ''[{"answer": "x"}]'') = Some (JArr [JObj [(''answer'', JStr ''x'')]]) \<and>
   normalize reference_lib ''[{"answer": "x"}]'' = Inl (AttributeError ''get'') \<and>
   normalize reference_lib ''42'' = Inl (AttributeError ''get'') \<and>
   normalize reference_lib ''{"answer": "a", "detectedLanguages": "en"}'' =
     Inl (ValidationError ''detectedLanguages'') \<and>
   snd (analyze_onedrive_image reference_lib example_config (world_reply ''[{"answer": "x"}]'')
          example_payload (Some ''Bearer k'')) = Inl (AttributeError ''get'')\<close>
proof -
  have a: \<open>loads reference_lib (strip ''[{"answer": "x"}]'') =
      Some (JArr [JObj [(''answer'', JStr ''x'')]])\<close>
    by code_simp
  have b: \<open>normalize reference_lib ''[{"answer": "x"}]'' = Inl (AttributeError ''get'')\<close>
    by code_simp
  have c: \<open>normalize reference_lib ''42'' = Inl (AttributeError ''get'')\<close>
    by code_simp
  have d: \<open>normalize reference_lib ''{"answer": "a", "detectedLanguages": "en"}'' =
      Inl (ValidationError ''detectedLanguages'')\<close>
    by code_simp
  have e: \<open>snd (analyze_onedrive_image reference_lib example_config
      (world_reply ''[{"answer": "x"}]'') example_payload (Some ''Bearer k'')) =
      Inl (AttributeError ''get'')\<close>
    unfolding handler_on_reply by (rule b)
  show ?thesis by (intro conjI a b c d e)
qed

text \<open>
  C6 fails on the code for \<^verbatim>\<open>detectedLanguages\<close>.  The four text fields go through
  \<^verbatim>\<open>str\<close>; \<^verbatim>\<open>detectedLanguages\<close> is only replaced when falsy, so a text or a number
  under that key reaches the validation of the response and is refused.
\<close>

theorem languages_not_coerced:
  "shape_response lib (JObj [(''answer'', JStr ''a''), (''detectedLanguages'', JStr ''en'')]) =
     Inl (ValidationError ''detectedLanguages'') \<and>
   shape_response lib (JObj [(''answer'', JStr ''a''), (''detectedLanguages'', JInt 5)]) =
     Inl (ValidationError ''detectedLanguages'')"
  by (simp add: shape_response_def dict_get_def languages_field_def)

text \<open>
  What the construction does guarantee: whenever a response is built, its four text
  fields are the \<^verbatim>\<open>str\<close> of the value under the key, the empty text when the key is
  missing; a missing \<^verbatim>\<open>detectedLanguages\<close> key gives the empty list.
\<close>

lemma shape_response_strings:
  assumes "shape_response lib (JObj d) = Inr r"
  shows "answer r = py_str (dict_get d ''answer'' (JStr [])) \<and>
         imageSummary r = py_str (dict_get d ''imageSummary'' (JStr [])) \<and>
         extractedText r = py_str (dict_get d ''extractedText'' (JStr [])) \<and>
         safetyNotes r = py_str (dict_get d ''safetyNotes'' (JStr []))"
  using assms by (auto simp: shape_response_def split: sum.splits)

lemma missing_string_key: "map_of d k = None \<Longrightarrow> py_str (dict_get d k (JStr [])) = []"
  by (simp add: dict_get_def py_str_def)

lemma missing_languages_key:
  assumes "map_of d ''detectedLanguages'' = None"
  shows "\<exists>r. shape_response lib (JObj d) = Inr r \<and> detectedLanguages r = []"
  using assms by (simp add: shape_response_def dict_get_def languages_field_def)

end
